theory Spec2Isabelle
  imports Main "HOL-Library.Char_ord" "HOL-Library.List_Lexorder" "HOL-Library.Sublist"
begin

section \<open>Python values\<close>

text \<open>
  The serializers of \<^verbatim>\<open>dvc/stage/serialize.py\<close> build plain Python data (strings, booleans,
  lists, ordered dictionaries) that is later dumped as YAML. A dictionary is an association
  list in insertion order, as \<^verbatim>\<open>OrderedDict\<close> keeps it. Strings are compared as Python compares
  \<^verbatim>\<open>str\<close>: lexicographically, character by character.
\<close>

datatype pyval =
    PNone
  | PBool bool
  | PInt int
  | PStr string
  | PList "pyval list"
  | PDict "(string \<times> pyval) list"

datatype error = AssertionError

text \<open>Python truthiness, as tested by \<^verbatim>\<open>if value\<close>, \<^verbatim>\<open>not flags\<close> and \<^verbatim>\<open>assert stage.cmd\<close>.\<close>

fun truthy :: "pyval \<Rightarrow> bool" where
  "truthy PNone = False"
| "truthy (PBool b) = b"
| "truthy (PInt i) = (i \<noteq> 0)"
| "truthy (PStr s) = (s \<noteq> [])"
| "truthy (PList xs) = (xs \<noteq> [])"
| "truthy (PDict kvs) = (kvs \<noteq> [])"

text \<open>\<^verbatim>\<open>d[k] = v\<close> on an ordered dictionary: an existing key keeps its place.\<close>

fun od_set :: "string \<Rightarrow> 'v \<Rightarrow> (string \<times> 'v) list \<Rightarrow> (string \<times> 'v) list" where
  "od_set k v [] = [(k, v)]"
| "od_set k v ((k', v') # kvs) =
     (if k = k' then (k, v) # kvs else (k', v') # od_set k v kvs)"

text \<open>\<^verbatim>\<open>OrderedDict(pairs)\<close>: the pairs are inserted from left to right.\<close>

definition OrderedDict :: "(string \<times> 'v) list \<Rightarrow> (string \<times> 'v) list" where
  "OrderedDict pairs = foldl (\<lambda>d (k, v). od_set k v d) [] pairs"

text \<open>
  \<^verbatim>\<open>d.move_to_end(k, last=False)\<close>. The source calls it right after \<^verbatim>\<open>d[k] = ...\<close>, so the
  key is present; for an absent key (a \<^verbatim>\<open>KeyError\<close> in Python) the dictionary is returned as is.
\<close>

definition move_to_end_first :: "string \<Rightarrow> (string \<times> 'v) list \<Rightarrow> (string \<times> 'v) list" where
  "move_to_end_first k d =
     (case map_of d k of
        None \<Rightarrow> d
      | Some v \<Rightarrow> (k, v) # filter (\<lambda>kv. fst kv \<noteq> k) d)"

section \<open>Outputs, dependencies and stages\<close>

text \<open>
  The attributes of \<^verbatim>\<open>BaseOutput\<close> that the serializers read. \<^verbatim>\<open>metric\<close> and \<^verbatim>\<open>plot\<close> are either
  a boolean or a dictionary of sub-properties.
\<close>

record base_output =
  def_path :: string
  use_cache :: bool
  persist :: bool
  metric :: pyval
  plot :: pyval
  checksum_type :: string
  checksum :: pyval

text \<open>
  \<^verbatim>\<open>dump[PARAM_PARAMS]\<close> of a parameters dependency: a dictionary of key and value once the
  values are filled, a list of keys before (\<^verbatim>\<open>no_exec\<close>); anything else fails the assertion of
  \<^verbatim>\<open>_serialize_params_keys\<close>.
\<close>

datatype params_value =
    Params_dict "(string \<times> pyval) list"
  | Params_list "string list"
  | Params_other

text \<open>\<^verbatim>\<open>ParamsDependency\<close> is a subclass of the output class with the parameters added.\<close>

record params_dependency = base_output +
  params :: params_value

text \<open>An entry of \<^verbatim>\<open>stage.deps\<close>; the constructor is what \<^verbatim>\<open>isinstance\<close> tells apart.\<close>

datatype dependency = Dep base_output | ParamsDep params_dependency

record stage =
  name :: "string option"
  cmd :: "string option"
  wdir :: string
  path :: string
  deps :: "dependency list"
  outs :: "base_output list"
  frozen :: bool
  always_changed :: bool

definition PARAM_PATH :: string where "PARAM_PATH = ''path''"
definition PARAM_PARAMS :: string where "PARAM_PARAMS = ''params''"
definition PARAM_DEPS :: string where "PARAM_DEPS = ''deps''"
definition PARAM_OUTS :: string where "PARAM_OUTS = ''outs''"
definition PARAM_CACHE :: string where "PARAM_CACHE = ''cache''"
definition PARAM_METRIC :: string where "PARAM_METRIC = ''metric''"
definition PARAM_PLOT :: string where "PARAM_PLOT = ''plot''"
definition PARAM_PERSIST :: string where "PARAM_PERSIST = ''persist''"
definition PARAM_CMD :: string where "PARAM_CMD = ''cmd''"
definition PARAM_WDIR :: string where "PARAM_WDIR = ''wdir''"
definition PARAM_METRICS :: string where "PARAM_METRICS = ''metrics''"
definition PARAM_PLOTS :: string where "PARAM_PLOTS = ''plots''"
definition PARAM_FROZEN :: string where "PARAM_FROZEN = ''frozen''"
definition PARAM_ALWAYS_CHANGED :: string where "PARAM_ALWAYS_CHANGED = ''always_changed''"
definition DEFAULT_PARAMS_FILE :: string where "DEFAULT_PARAMS_FILE = ''params.yaml''"

text \<open>\<^verbatim>\<open>stage.cmd\<close> and \<^verbatim>\<open>stage.name\<close> are a string or \<^verbatim>\<open>None\<close>.\<close>

definition py_opt_str :: "string option \<Rightarrow> pyval" where
  "py_opt_str s = (case s of None \<Rightarrow> PNone | Some t \<Rightarrow> PStr t)"

section \<open>The serializers of \<^verbatim>\<open>dvc/stage/serialize.py\<close>\<close>

text \<open>
  \<^verbatim>\<open>sort_by_path = partial(sorted, key=attrgetter("def_path"))\<close>. Python's \<^verbatim>\<open>sorted\<close> is stable,
  and so is \<^const>\<open>sort_key\<close>.
\<close>

definition sort_by_path :: "'a base_output_scheme list \<Rightarrow> 'a base_output_scheme list" where
  "sort_by_path items = sort_key def_path items"

text \<open>
  \<^verbatim>\<open>_get_flags\<close> (the leading underscore of the source's private names is dropped): the
  pairs the generator yields, collected by \<^verbatim>\<open>OrderedDict\<close>.
\<close>

definition get_flags :: "'a base_output_scheme \<Rightarrow> (string \<times> pyval) list" where
  "get_flags out = OrderedDict
     ((if \<not> use_cache out then [(PARAM_CACHE, PBool False)] else []) @
      (if persist out then [(PARAM_PERSIST, PBool True)] else []) @
      (case plot out of
         PDict items \<Rightarrow> (if truthy (plot out) then items else [])
       | _ \<Rightarrow> []))"

definition serialize_out :: "'a base_output_scheme \<Rightarrow> pyval" where
  "serialize_out out =
     (let flags = get_flags out
      in if flags = [] then PStr (def_path out) else PDict [(def_path out, PDict flags)])"

text \<open>The loop of \<^verbatim>\<open>_serialize_outs\<close>, with the three lists \<^verbatim>\<open>outs\<close>, \<^verbatim>\<open>metrics\<close> and \<^verbatim>\<open>plots\<close> it
  appends to.\<close>

fun serialize_outs_loop ::
  "'a base_output_scheme list \<Rightarrow> pyval list \<times> pyval list \<times> pyval list \<Rightarrow>
   pyval list \<times> pyval list \<times> pyval list" where
  "serialize_outs_loop [] acc = acc"
| "serialize_outs_loop (out # rest) (os, ms, pls) =
     (if truthy (plot out) then
        serialize_outs_loop rest (os, ms, pls @ [serialize_out out])
      else if truthy (metric out) then
        serialize_outs_loop rest (os, ms @ [serialize_out out], pls)
      else
        serialize_outs_loop rest (os @ [serialize_out out], ms, pls))"

definition serialize_outs ::
  "'a base_output_scheme list \<Rightarrow> pyval list \<times> pyval list \<times> pyval list" where
  "serialize_outs outputs = serialize_outs_loop (sort_by_path outputs) ([], [], [])"

text \<open>
  Modelled from the spec: \<^verbatim>\<open>ParamsDependency.dumpd\<close> is not among the sources. The record it
  returns holds the dependency's path under \<^verbatim>\<open>PARAM_PATH\<close> and its parameters (the keys, or
  the keys with their values) under \<^verbatim>\<open>PARAM_PARAMS\<close>, as the spec's "parameter keys grouped by
  source file" and the two reads \<^verbatim>\<open>dump[PARAM_PATH], dump[PARAM_PARAMS]\<close> of the source say.
\<close>

definition dumpd :: "params_dependency \<Rightarrow> string \<times> params_value" where
  "dumpd param_dep = (def_path param_dep, params param_dep)"

text \<open>\<^verbatim>\<open>params.keys() if isinstance(params, dict) else params\<close>.\<close>

fun params_keys :: "params_value \<Rightarrow> string list" where
  "params_keys (Params_dict d) = map fst d"
| "params_keys (Params_list l) = l"
| "params_keys Params_other = []"

text \<open>
  The loop of \<^verbatim>\<open>_serialize_params_keys\<close> over the sorted dependencies;
  \<^verbatim>\<open>assert isinstance(params, (dict, list))\<close> is the first branch.
\<close>

fun serialize_params_keys_loop ::
  "params_dependency list \<Rightarrow> pyval list \<Rightarrow> error + pyval list" where
  "serialize_params_keys_loop [] keys = Inr keys"
| "serialize_params_keys_loop (param_dep # rest) keys =
     (case dumpd param_dep of (pth, ps) \<Rightarrow>
        if ps = Params_other then Inl AssertionError
        else
          (let k = sort (params_keys ps)
           in if k = [] then serialize_params_keys_loop rest keys
              else if pth = DEFAULT_PARAMS_FILE then
                serialize_params_keys_loop rest (map PStr k @ keys)
              else
                serialize_params_keys_loop rest
                  (keys @ [PDict [(pth, PList (map PStr k))]])))"

definition serialize_params_keys :: "params_dependency list \<Rightarrow> error + pyval list" where
  "serialize_params_keys ps = serialize_params_keys_loop (sort_by_path ps) []"

text \<open>\<^verbatim>\<open>params[key]\<close> for a key taken from \<^verbatim>\<open>params.keys()\<close>.\<close>

definition dict_get :: "(string \<times> pyval) list \<Rightarrow> string \<Rightarrow> pyval" where
  "dict_get d key = (case map_of d key of Some v \<Rightarrow> v | None \<Rightarrow> PNone)"

text \<open>The loop of \<^verbatim>\<open>_serialize_params_values\<close>; only dictionaries are kept.\<close>

fun serialize_params_values_loop ::
  "params_dependency list \<Rightarrow> (string \<times> pyval) list \<Rightarrow> (string \<times> pyval) list" where
  "serialize_params_values_loop [] key_vals = key_vals"
| "serialize_params_values_loop (param_dep # rest) key_vals =
     (case dumpd param_dep of (pth, ps) \<Rightarrow>
        (case ps of
           Params_dict d \<Rightarrow>
             (let kv = map (\<lambda>key. (key, dict_get d key)) (sort (map fst d));
                  key_vals1 = od_set pth (PDict (OrderedDict kv)) key_vals;
                  key_vals2 = (if pth = DEFAULT_PARAMS_FILE
                               then move_to_end_first pth key_vals1 else key_vals1)
              in serialize_params_values_loop rest key_vals2)
         | _ \<Rightarrow> serialize_params_values_loop rest key_vals))"

definition serialize_params_values :: "params_dependency list \<Rightarrow> (string \<times> pyval) list" where
  "serialize_params_values ps = serialize_params_values_loop (sort_by_path ps) []"

text \<open>
  Modelled from the spec: \<^verbatim>\<open>split_params_deps\<close> of \<^verbatim>\<open>dvc/stage/utils.py\<close> is not among the
  sources. It splits \<^verbatim>\<open>stage.deps\<close> into the parameter dependencies and the other
  dependencies (spec, section 6: "deps (ordered list of paths/parameter keys)"), each in
  the order of the stage.
\<close>

definition split_params_deps :: "stage \<Rightarrow> params_dependency list \<times> base_output list" where
  "split_params_deps st =
     (concat (map (\<lambda>d. case d of ParamsDep p \<Rightarrow> [p] | Dep _ \<Rightarrow> []) (deps st)),
      concat (map (\<lambda>d. case d of Dep x \<Rightarrow> [x] | ParamsDep _ \<Rightarrow> []) (deps st)))"

text \<open>
  \<^verbatim>\<open>to_pipeline_file\<close>. \<^verbatim>\<open>resolve_wdir\<close> (of \<^verbatim>\<open>dvc/stage/utils.py\<close>, not among the sources) is a
  parameter: it gives the working directory to write, or \<^verbatim>\<open>None\<close> for the default one.
  The result is the one-entry mapping \<^verbatim>\<open>{stage.name: OrderedDict(...)}\<close>.
\<close>

definition to_pipeline_file ::
  "(string \<Rightarrow> string \<Rightarrow> pyval) \<Rightarrow> stage \<Rightarrow>
   error + (string option \<times> (string \<times> pyval) list) list" where
  "to_pipeline_file resolve_wdir st =
     (let wd = resolve_wdir (wdir st) (path st);
          (ps, ds) = split_params_deps st;
          ds' = sort (map def_path ds)
      in case serialize_params_keys ps of
           Inl e \<Rightarrow> Inl e
         | Inr ps' \<Rightarrow>
             (case serialize_outs (outs st) of (os, ms, pls) \<Rightarrow>
                (let res =
                   [(PARAM_CMD, py_opt_str (cmd st)),
                    (PARAM_WDIR, wd),
                    (PARAM_DEPS, PList (map PStr ds')),
                    (PARAM_PARAMS, PList ps'),
                    (PARAM_OUTS, PList os),
                    (PARAM_METRICS, PList ms),
                    (PARAM_PLOTS, PList pls),
                    (PARAM_FROZEN, PBool (frozen st)),
                    (PARAM_ALWAYS_CHANGED, PBool (always_changed st))]
                 in Inr [(name st, OrderedDict (filter (\<lambda>kv. truthy (snd kv)) res))])))"

text \<open>One entry of the \<^verbatim>\<open>deps\<close> and \<^verbatim>\<open>outs\<close> lists of a lock record.\<close>

definition lock_entry :: "'a base_output_scheme \<Rightarrow> pyval" where
  "lock_entry item =
     PDict (OrderedDict [(PARAM_PATH, PStr (def_path item)), (checksum_type item, checksum item)])"

definition to_single_stage_lockfile :: "stage \<Rightarrow> error + (string \<times> pyval) list" where
  "to_single_stage_lockfile st =
     (if \<not> truthy (py_opt_str (cmd st)) then Inl AssertionError
      else
        (let res = OrderedDict [(''cmd'', py_opt_str (cmd st))];
             (ps, ds) = split_params_deps st;
             ds' = map lock_entry (sort_by_path ds);
             os' = map lock_entry (sort_by_path (outs st));
             ps' = serialize_params_values ps;
             res1 = (if ds' \<noteq> [] then od_set PARAM_DEPS (PList ds') res else res);
             res2 = (if ps' \<noteq> [] then od_set PARAM_PARAMS (PDict ps') res1 else res1);
             res3 = (if os' \<noteq> [] then od_set PARAM_OUTS (PList os') res2 else res2)
         in Inr res3))"

definition to_lockfile ::
  "stage \<Rightarrow> error + (string option \<times> (string \<times> pyval) list) list" where
  "to_lockfile st =
     (if \<not> truthy (py_opt_str (name st)) then Inl AssertionError
      else (case to_single_stage_lockfile st of
              Inl e \<Rightarrow> Inl e
            | Inr r \<Rightarrow> Inr [(name st, r)]))"

section \<open>The hasher\<close>

text \<open>
  The hasher, the cache store and \<^verbatim>\<open>add\<close> are described by the spec and exercised by
  \<^verbatim>\<open>tests/func/test_add.py\<close>; their code is not among the sources. The definitions of this
  and the next sections follow the spec (sections 3, 4.1, 4.2 and 4.5), and the tests where
  the spec leaves a choice open.
\<close>

text \<open>
  Modelled from the spec: a ContentId is an opaque string; the mutation fingerprint of a path
  is \<^verbatim>\<open>(size, mtime, inode)\<close>; a path is the list of its components.
\<close>

type_synonym content_id = string
type_synonym fspath = "string list"
type_synonym fingerprint = "nat \<times> nat \<times> nat"

text \<open>
  Modelled from the spec: what the hasher sees at a path, a file (its fingerprint and its
  bytes) or a directory (its fingerprint and its named children).
\<close>

datatype node =
    File fingerprint string
  | Dir fingerprint "(string \<times> node) list"

text \<open>Modelled from the spec: the current fingerprint of what is at the path.\<close>

fun node_stat :: "node \<Rightarrow> fingerprint" where
  "node_stat (File fp bytes) = fp"
| "node_stat (Dir fp children) = fp"

text \<open>
  Modelled from the spec: the persistent mutation-fingerprint table keyed by path, the stored
  DirObjects, and the number of contents streamed through the digest so far.
\<close>

record hasher =
  table :: "fspath \<rightharpoonup> fingerprint \<times> content_id"
  dir_objects :: "content_id \<rightharpoonup> (string \<times> content_id) list"
  digests :: nat

text \<open>
  Modelled from the spec: the "reserved suffix marker on the identity" that tells a DirObject
  from a plain-file object.
\<close>

definition DIR_SUFFIX :: string where "DIR_SUFFIX = ''.dir''"

text \<open>
  Modelled from the spec: "if current \<^verbatim>\<open>(size, mtime, inode)\<close> matches a stored record, return
  the stored ContentId without touching file bytes".
\<close>

definition memo :: "hasher \<Rightarrow> fspath \<Rightarrow> fingerprint \<Rightarrow> content_id option" where
  "memo h p fp =
     (case table h p of
        Some (fp', cid) \<Rightarrow> if fp' = fp then Some cid else None
      | None \<Rightarrow> None)"

text \<open>Modelled from the spec: "After hashing, upsert the fingerprint record."\<close>

definition upsert :: "fspath \<Rightarrow> fingerprint \<Rightarrow> content_id \<Rightarrow> hasher \<Rightarrow> hasher" where
  "upsert p fp cid h = h\<lparr>table := (table h)(p \<mapsto> (fp, cid))\<rparr>"

text \<open>
  Modelled from the spec: \<^verbatim>\<open>hash(path)\<close> of section 4.1. The digest \<open>dg\<close> and the serialization
  \<open>ser\<close> of a directory listing are parameters. A file is streamed through the digest unless
  the table answers; a directory hashes its children, sorts the entries by relative path,
  serializes them, digests the serialized form, tags the identity with the reserved suffix
  and stores the DirObject.
\<close>

fun hash_node ::
  "(string \<Rightarrow> content_id) \<Rightarrow> ((string \<times> content_id) list \<Rightarrow> string) \<Rightarrow>
   fspath \<Rightarrow> node \<Rightarrow> hasher \<Rightarrow> content_id \<times> hasher"
and hash_children ::
  "(string \<Rightarrow> content_id) \<Rightarrow> ((string \<times> content_id) list \<Rightarrow> string) \<Rightarrow>
   fspath \<Rightarrow> (string \<times> node) list \<Rightarrow> hasher \<Rightarrow> (string \<times> content_id) list \<times> hasher"
where
  "hash_node dg ser p (File fp bytes) h =
     (case memo h p fp of
        Some cid \<Rightarrow> (cid, h)
      | None \<Rightarrow>
          (let cid = dg bytes
           in (cid, upsert p fp cid (h\<lparr>digests := digests h + 1\<rparr>))))"
| "hash_node dg ser p (Dir fp children) h =
     (case memo h p fp of
        Some cid \<Rightarrow> (cid, h)
      | None \<Rightarrow>
          (case hash_children dg ser p children h of (entries, h1) \<Rightarrow>
             (let listing = sort_key fst entries;
                  cid = dg (ser listing) @ DIR_SUFFIX
              in (cid, upsert p fp cid
                    (h1\<lparr>dir_objects := (dir_objects h1)(cid \<mapsto> listing),
                        digests := digests h1 + 1\<rparr>)))))"
| "hash_children dg ser p [] h = ([], h)"
| "hash_children dg ser p ((nm, child) # rest) h =
     (case hash_node dg ser (p @ [nm]) child h of (cid, h1) \<Rightarrow>
        (case hash_children dg ser p rest h1 of (entries, h2) \<Rightarrow>
           ((nm, cid) # entries, h2)))"


section \<open>The cache store and \<^verbatim>\<open>add\<close>\<close>

text \<open>
  Modelled from the spec: the link strategies of section 4.2 (hardlink, symlink, copy, and
  reflink where the platform supports copy-on-write clones).
\<close>

datatype link_type = Hardlink | Symlink | Copy | Reflink

text \<open>
  Modelled from the spec: the structural errors of section 7 that \<^verbatim>\<open>add\<close> can raise, under the
  names \<^verbatim>\<open>tests/func/test_add.py\<close> expects (duplicate output ownership, overlapping outputs).
\<close>

datatype structural_error = OutputDuplicationError | OverlappingOutputPathsError

text \<open>
  Modelled from the spec: the errors of section 7 that concern \<^verbatim>\<open>add\<close>: a structural error, a
  path that does not exist, and the cache error "all link strategies exhausted".
\<close>

datatype dvc_error = StructuralError structural_error | OutputDoesNotExistError | CacheError

text \<open>
  Modelled from the spec: a file of the file system: its bytes, its modification time and its
  read-only bit. Two names that share an inode (a hardlink) share all three.
\<close>

record inode =
  ibytes :: string
  mtime :: nat
  writable :: bool

text \<open>
  Modelled from the spec: what a workspace path is bound to, a regular file (the number of its
  inode) or a symlink that resolves through the cache entry of a ContentId.
\<close>

datatype wentry = Regular nat | Link content_id

text \<open>
  Modelled from the spec: a tracking record, the Outputs a Stage declares with the ContentIds
  recorded for them (section 3); the stage is identified by its file and, in a pipeline
  file, its name.
\<close>

record tracking =
  dvcfile :: fspath
  stage_name :: "string option"
  recorded :: "(fspath \<times> content_id option) list"

text \<open>
  Modelled from the spec: the repository-scoped context of section 9: the file system (inodes,
  workspace names, cache entries by ContentId), the hasher's state, the tracking records, and
  the instrumentation counters of section 8 (store, link, protect and unprotect calls).
\<close>

record repo =
  inodes :: "nat \<rightharpoonup> inode"
  work :: "fspath \<rightharpoonup> wentry"
  cache :: "content_id \<rightharpoonup> nat"
  next_inode :: nat
  clock :: nat
  state :: hasher
  stages :: "tracking list"
  cnt_store :: nat
  cnt_link :: nat
  cnt_protect :: nat
  cnt_unprotect :: nat

text \<open>
  Modelled from the spec: the inode behind a workspace path; a symlink resolves through the cache.
\<close>

definition inode_of :: "repo \<Rightarrow> fspath \<Rightarrow> nat option" where
  "inode_of r p =
     (case work r p of
        None \<Rightarrow> None
      | Some (Regular i) \<Rightarrow> Some i
      | Some (Link cid) \<Rightarrow> cache r cid)"

text \<open>
  Modelled from the spec: what the hasher sees at a workspace path: the fingerprint
  \<^verbatim>\<open>(size, mtime, inode)\<close> and the bytes of the file.
\<close>

definition stat :: "repo \<Rightarrow> fspath \<Rightarrow> node option" where
  "stat r p =
     (case inode_of r p of
        None \<Rightarrow> None
      | Some i \<Rightarrow>
          (case inodes r i of
             None \<Rightarrow> None
           | Some ino \<Rightarrow> Some (File (length (ibytes ino), mtime ino, i) (ibytes ino))))"

text \<open>
  Modelled from the spec: \<^verbatim>\<open>has(id)\<close>, "existence check by path presence, no content validation".
\<close>

definition has :: "repo \<Rightarrow> content_id \<Rightarrow> bool" where
  "has r cid = (cache r cid \<noteq> None)"

text \<open>
  Modelled from the spec: a new file with the given bytes on a fresh inode.
\<close>

definition new_file :: "string \<Rightarrow> bool \<Rightarrow> repo \<Rightarrow> repo" where
  "new_file bs w r =
     r\<lparr>inodes := (inodes r)(next_inode r \<mapsto> \<lparr>ibytes = bs, mtime = clock r, writable = w\<rparr>),
       next_inode := next_inode r + 1,
       clock := clock r + 1\<rparr>"

text \<open>
  Modelled from the spec: \<^verbatim>\<open>store(sourcePath, id)\<close> transfers the bytes of the workspace file into
  the cache under the id; one more cache write is counted.
\<close>

definition store :: "fspath \<Rightarrow> content_id \<Rightarrow> repo \<Rightarrow> repo" where
  "store p cid r =
     (case stat r p of
        Some (File fp bs) \<Rightarrow>
          (new_file bs True r)\<lparr>cache := (cache r)(cid \<mapsto> next_inode r),
                                cnt_store := cnt_store r + 1\<rparr>
      | _ \<Rightarrow> r)"

text \<open>
  Modelled from the spec: setting the read-only bit of an inode.
\<close>

definition set_writable :: "nat \<Rightarrow> bool \<Rightarrow> repo \<Rightarrow> repo" where
  "set_writable i w r =
     (case inodes r i of
        None \<Rightarrow> r
      | Some ino \<Rightarrow> r\<lparr>inodes := (inodes r)(i \<mapsto> ino\<lparr>writable := w\<rparr>)\<rparr>)"

text \<open>
  Modelled from the spec: \<^verbatim>\<open>protect\<close> marks a file read-only; one more call is counted.
\<close>

definition protect :: "nat \<Rightarrow> repo \<Rightarrow> repo" where
  "protect i r = (set_writable i False r)\<lparr>cnt_protect := cnt_protect r + 1\<rparr>"

text \<open>
  Modelled from the spec: \<^verbatim>\<open>unprotect(path)\<close> "toggle[s] the read-only bit" of the file at the path,
  so that the user can edit it in place; one more call is counted.
\<close>

definition unprotect :: "fspath \<Rightarrow> repo \<Rightarrow> repo" where
  "unprotect p r =
     (case inode_of r p of
        None \<Rightarrow> r
      | Some i \<Rightarrow> (set_writable i True r)\<lparr>cnt_unprotect := cnt_unprotect r + 1\<rparr>)"

text \<open>
  Modelled from the spec: whether an inode can be written (\<^verbatim>\<open>os.access(path, os.W_OK)\<close> in the
  tests).
\<close>

definition is_writable :: "repo \<Rightarrow> nat \<Rightarrow> bool" where
  "is_writable r i = (case inodes r i of None \<Rightarrow> False | Some ino \<Rightarrow> writable ino)"

text \<open>
  Modelled from the spec: the bytes of the CacheEntry of a ContentId.
\<close>

definition cache_bytes :: "repo \<Rightarrow> content_id \<Rightarrow> string option" where
  "cache_bytes r cid =
     (case cache r cid of
        None \<Rightarrow> None
      | Some ci \<Rightarrow> (case inodes r ci of None \<Rightarrow> None | Some ino \<Rightarrow> Some (ibytes ino)))"

text \<open>
  Modelled from the spec: \<^verbatim>\<open>materialize(id, destPath, strategy)\<close> for one strategy. A hardlink
  makes the destination share the inode of the cache entry, which is then marked read-only;
  a symlink makes it resolve through the cache; a copy (or reflink) gives it independent
  bytes, explicitly marked read-only. By \<^verbatim>\<open>test_add_optimization_for_hardlink_on_empty_files\<close>
  "hardlinks are not created for empty files": an empty file is created instead. One more
  link operation is counted.
\<close>

definition materialize :: "content_id \<Rightarrow> fspath \<Rightarrow> link_type \<Rightarrow> repo \<Rightarrow> repo" where
  "materialize cid dest t r =
     (case cache r cid of
        None \<Rightarrow> r
      | Some ci \<Rightarrow>
          (case cache_bytes r cid of
             None \<Rightarrow> r
           | Some bs \<Rightarrow>
               (case t of
                  Hardlink \<Rightarrow>
                    (if bs = [] then
                       (new_file [] True r)\<lparr>work := (work r)(dest \<mapsto> Regular (next_inode r)),
                                              cnt_link := cnt_link r + 1\<rparr>
                     else
                       (let r1 = r\<lparr>work := (work r)(dest \<mapsto> Regular ci),
                                    cnt_link := cnt_link r + 1\<rparr>
                        in if is_writable r1 ci then protect ci r1 else r1))
                | Symlink \<Rightarrow>
                    r\<lparr>work := (work r)(dest \<mapsto> Link cid), cnt_link := cnt_link r + 1\<rparr>
                | _ \<Rightarrow>
                    (new_file bs False r)\<lparr>work := (work r)(dest \<mapsto> Regular (next_inode r)),
                                            cnt_link := cnt_link r + 1,
                                            cnt_protect := cnt_protect r + 1\<rparr>)))"

text \<open>
  Modelled from the spec: whether the workspace path already is what the strategy would
  produce from the cache entry: the same inode for a hardlink (an inode of its own for an
  empty file), a symlink to the entry for a symlink, an inode of its own for a copy or
  reflink (\<^verbatim>\<open>test_should_relink_on_repeated_add\<close> relinks in exactly the other cases).
\<close>

definition linked_as :: "link_type \<Rightarrow> repo \<Rightarrow> fspath \<Rightarrow> content_id \<Rightarrow> bool" where
  "linked_as t r p cid =
     (case cache r cid of
        None \<Rightarrow> False
      | Some ci \<Rightarrow>
          (case work r p of
             None \<Rightarrow> False
           | Some (Link c) \<Rightarrow> t = Symlink \<and> c = cid
           | Some (Regular i) \<Rightarrow>
               (case t of
                  Hardlink \<Rightarrow> (if cache_bytes r cid = Some [] then i \<noteq> ci else i = ci)
                | Symlink \<Rightarrow> False
                | _ \<Rightarrow> i \<noteq> ci)))"

text \<open>
  Modelled from the spec: "cache entry must then be marked read-only": \<^verbatim>\<open>add\<close> protects the
  cache entry unless it is read-only already (\<^verbatim>\<open>test_should_protect_on_repeated_add\<close>: after
  \<^verbatim>\<open>unprotect\<close> and \<^verbatim>\<open>add\<close> the cache entry is not writable, for every link type).
\<close>

definition ensure_protected :: "content_id \<Rightarrow> repo \<Rightarrow> repo" where
  "ensure_protected cid r =
     (case cache r cid of
        None \<Rightarrow> r
      | Some ci \<Rightarrow> if is_writable r ci then protect ci r else r)"

text \<open>
  Modelled from the spec: two output paths overlap when they are equal or one is an ancestor
  directory of the other (sections 3 and 4.5).
\<close>

definition overlaps :: "fspath \<Rightarrow> fspath \<Rightarrow> bool" where
  "overlaps p q = (prefix p q \<or> prefix q p)"

text \<open>
  Modelled from the spec: the single-output tracking record of a path is the file next to it
  named after it (\<^verbatim>\<open>foo.dvc\<close> for \<^verbatim>\<open>foo\<close>, as in \<^verbatim>\<open>test_add\<close>).
\<close>

definition dvcfile_of :: "fspath \<Rightarrow> fspath" where
  "dvcfile_of p = (case rev p of [] \<Rightarrow> [''.dvc''] | x # xs \<Rightarrow> rev xs @ [x @ ''.dvc''])"

text \<open>
  Modelled from the spec: the tracking record that \<^verbatim>\<open>add\<close> of the path writes (re-adding a path
  replaces it, \<^verbatim>\<open>test_not_raises_on_re_add\<close>); every other record belongs to another Stage.
\<close>

definition own_stage :: "fspath \<Rightarrow> tracking \<Rightarrow> bool" where
  "own_stage p t = (dvcfile t = dvcfile_of p \<and> stage_name t = None)"

text \<open>
  Modelled from the spec: the Outputs declared by the other Stages.
\<close>

definition other_outputs :: "fspath \<Rightarrow> tracking list \<Rightarrow> fspath list" where
  "other_outputs p ts =
     concat (map (\<lambda>t. map fst (recorded t)) (filter (\<lambda>t. \<not> own_stage p t) ts))"

text \<open>
  Modelled from the spec: validation (1) of section 4.5, "no two Stages share an Output path
  or overlapping (ancestor/descendant) Output paths -- error otherwise": a shared path is
  \<^verbatim>\<open>OutputDuplicationError\<close>, an ancestor or descendant \<^verbatim>\<open>OverlappingOutputPathsError\<close>.
\<close>

definition check_outputs :: "fspath \<Rightarrow> tracking list \<Rightarrow> structural_error option" where
  "check_outputs p ts =
     (if p \<in> set (other_outputs p ts) then Some OutputDuplicationError
      else if list_ex (overlaps p) (other_outputs p ts) then Some OverlappingOutputPathsError
      else None)"

text \<open>
  Modelled from the spec: writing a tracking record replaces the record of the same stage, or
  adds a new one.
\<close>

fun put_tracking :: "tracking \<Rightarrow> tracking list \<Rightarrow> tracking list" where
  "put_tracking t [] = [t]"
| "put_tracking t (t' # ts) =
     (if dvcfile t' = dvcfile t \<and> stage_name t' = stage_name t then t # ts
      else t' # put_tracking t ts)"

text \<open>
  Modelled from the spec: the single-output tracking record \<^verbatim>\<open>{outs: [{checksum, path}]}\<close> of
  section 6.
\<close>

definition new_tracking :: "fspath \<Rightarrow> content_id \<Rightarrow> tracking" where
  "new_tracking p cid = \<lparr>dvcfile = dvcfile_of p, stage_name = None, recorded = [(p, Some cid)]\<rparr>"

text \<open>
  Modelled from the spec: refreshing the mutation fingerprint of a path whose ContentId is
  known (the path may have got a new inode by linking).
\<close>

definition refresh :: "fspath \<Rightarrow> content_id \<Rightarrow> repo \<Rightarrow> repo" where
  "refresh p cid r =
     (case stat r p of
        Some nd \<Rightarrow> r\<lparr>state := upsert p (node_stat nd) cid (state r)\<rparr>
      | None \<Rightarrow> r)"

text \<open>
  Modelled from the spec: content already in the cache is not copied again (section 8,
  idempotence; \<^verbatim>\<open>test_should_not_checkout_when_adding_cached_copy\<close>).
\<close>

definition ensure_stored :: "fspath \<Rightarrow> content_id \<Rightarrow> repo \<Rightarrow> repo" where
  "ensure_stored p cid r = (if has r cid then r else store p cid r)"

text \<open>
  Modelled from the spec: a workspace file that already is what the strategy produces is not
  linked again (section 8, idempotence).
\<close>

definition ensure_linked :: "link_type \<Rightarrow> content_id \<Rightarrow> fspath \<Rightarrow> repo \<Rightarrow> repo" where
  "ensure_linked t cid p r = (if linked_as t r p cid then r else materialize cid p t r)"

text \<open>
  Modelled from the spec: recording the Output with its ContentId.
\<close>

definition record_output :: "fspath \<Rightarrow> content_id \<Rightarrow> repo \<Rightarrow> repo" where
  "record_output p cid r = r\<lparr>stages := put_tracking (new_tracking p cid) (stages r)\<rparr>"

text \<open>
  Modelled from the spec: \<^verbatim>\<open>add\<close> of one file (\<^verbatim>\<open>dvc/repo/add.py\<close> is not among the sources). The
  structure of the stage graph is validated before anything else (section 4.5, "fatal,
  raised before any execution"); then the file is hashed (section 4.1), its content stored
  unless the cache has it, the workspace file linked by the first configured strategy the
  platform supports unless it is linked already ("exhausting all configured strategies is a
  fatal error"), the cache entry protected, the fingerprint refreshed and the Output
  recorded. The result is the error, if any, and the repository after the call.
\<close>

definition add ::
  "(string \<Rightarrow> content_id) \<Rightarrow> link_type list \<Rightarrow> (link_type \<Rightarrow> bool) \<Rightarrow> fspath \<Rightarrow> repo \<Rightarrow>
   dvc_error option \<times> repo" where
  "add dg types supported p r =
     (case check_outputs p (stages r) of
        Some e \<Rightarrow> (Some (StructuralError e), r)
      | None \<Rightarrow>
          (case stat r p of
             None \<Rightarrow> (Some OutputDoesNotExistError, r)
           | Some nd \<Rightarrow>
               (case hash_node dg (\<lambda>entries. []) p nd (state r) of (cid, hs) \<Rightarrow>
                  (let r1 = ensure_stored p cid (r\<lparr>state := hs\<rparr>)
                   in case find supported types of
                        None \<Rightarrow> (Some CacheError, r1)
                      | Some t \<Rightarrow>
                          (None,
                           record_output p cid
                             (refresh p cid
                                (ensure_protected cid (ensure_linked t cid p r1))))))))"

section \<open>Notions used to state the properties\<close>

text \<open>
  What the loop of \<^verbatim>\<open>_serialize_params_values\<close> maintains: one entry per file, the default
  parameter file (when present) first, the other files in ascending order, and under every
  file a dictionary whose keys ascend.
\<close>

definition kv_ok :: "(string \<times> pyval) list \<Rightarrow> bool" where
  "kv_ok kv \<longleftrightarrow>
     distinct (map fst kv) \<and>
     sorted (filter (\<lambda>k. k \<noteq> DEFAULT_PARAMS_FILE) (map fst kv)) \<and>
     (DEFAULT_PARAMS_FILE \<in> set (map fst kv) \<longrightarrow> (\<exists>t. map fst kv = DEFAULT_PARAMS_FILE # t)) \<and>
     (\<forall>fv \<in> set kv. \<exists>items. snd fv = PDict items \<and> sorted (map fst items))"

text \<open>Reading the \<^verbatim>\<open>path\<close> fields back from a serialized \<^verbatim>\<open>deps\<close> or \<^verbatim>\<open>outs\<close> list of a lock record.\<close>

definition lock_paths :: "pyval \<Rightarrow> string list" where
  "lock_paths v =
     (case v of
        PList es \<Rightarrow>
          concat (map (\<lambda>e. case e of
                              PDict kv \<Rightarrow> (case map_of kv PARAM_PATH of
                                            Some (PStr p) \<Rightarrow> [p]
                                          | _ \<Rightarrow> [])
                            | _ \<Rightarrow> []) es)
      | _ \<Rightarrow> [])"


text \<open>The sub-properties of an output whose \<^verbatim>\<open>plot\<close> is a dictionary.\<close>

definition plot_items :: "'a base_output_scheme \<Rightarrow> (string \<times> pyval) list" where
  "plot_items out = (case plot out of PDict items \<Rightarrow> items | _ \<Rightarrow> [])"

section \<open>Concrete stages, outputs and parameters\<close>

text \<open>Inputs on which the properties below are run.\<close>

definition ex_out_b :: base_output where
  "ex_out_b = \<lparr>def_path = ''b'', use_cache = True, persist = False, metric = PBool False,
     plot = PBool False, checksum_type = ''md5'', checksum = PStr ''b0''\<rparr>"
definition ex_out_a :: base_output where
  "ex_out_a = \<lparr>def_path = ''a'', use_cache = False, persist = True, metric = PBool True,
     plot = PDict [(''x'', PStr ''t'')], checksum_type = ''md5'', checksum = PStr ''a0''\<rparr>"
definition ex_out_c :: base_output where
  "ex_out_c = \<lparr>def_path = ''c'', use_cache = True, persist = False, metric = PBool True,
     plot = PBool False, checksum_type = ''md5'', checksum = PStr ''c0''\<rparr>"

definition ex_params_default :: params_dependency where
  "ex_params_default = \<lparr>def_path = ''params.yaml'', use_cache = True, persist = False,
     metric = PBool False, plot = PBool False, checksum_type = ''md5'', checksum = PNone,
     params = Params_dict [(''lr'', PInt 1), (''epochs'', PInt 2)]\<rparr>"
definition ex_params_other :: params_dependency where
  "ex_params_other = \<lparr>def_path = ''aa.yaml'', use_cache = True, persist = False,
     metric = PBool False, plot = PBool False, checksum_type = ''md5'', checksum = PNone,
     params = Params_dict [(''z'', PInt 1), (''b'', PInt 2)]\<rparr>"
definition ex_stage :: stage where
  "ex_stage = \<lparr>name = Some ''train'', cmd = Some ''echo'', wdir = ''.'', path = ''dvc.yaml'',
     deps = [Dep ex_out_c, ParamsDep ex_params_default, ParamsDep ex_params_other, Dep ex_out_b],
     outs = [ex_out_b, ex_out_a], frozen = False, always_changed = True\<rparr>"
definition ex_stage_no_cmd :: stage where
  "ex_stage_no_cmd = \<lparr>name = None, cmd = None, wdir = ''.'', path = ''foo.dvc'',
     deps = [], outs = [ex_out_b], frozen = False, always_changed = False\<rparr>"

definition ex_params_list :: params_dependency where
  "ex_params_list = \<lparr>def_path = ''zz.yaml'', use_cache = True, persist = False,
     metric = PBool False, plot = PBool False, checksum_type = ''md5'', checksum = PNone,
     params = Params_list [''seed'', ''depth'']\<rparr>"

definition ex_digest :: "string \<Rightarrow> content_id" where
  "ex_digest bytes = ''#'' @ bytes"


definition ex_hasher :: hasher where
  "ex_hasher = \<lparr>table = Map.empty, dir_objects = Map.empty, digests = 0\<rparr>"



definition ex_repo :: repo where
  "ex_repo = \<lparr>inodes = [10 \<mapsto> \<lparr>ibytes = ''foo'', mtime = 1, writable = True\<rparr>,
                        11 \<mapsto> \<lparr>ibytes = '''', mtime = 2, writable = True\<rparr>],
              work = [[''foo''] \<mapsto> Regular 10, [''empty''] \<mapsto> Regular 11],
              cache = Map.empty, next_inode = 12, clock = 3, state = ex_hasher,
              stages = [], cnt_store = 0, cnt_link = 0, cnt_protect = 0, cnt_unprotect = 0\<rparr>"



definition ex_added_empty :: repo where
  "ex_added_empty = snd (add ex_digest [Hardlink] (\<lambda>t. True) [''empty''] ex_repo)"

definition ex_tracked :: repo where
  "ex_tracked = ex_repo\<lparr>stages :=
     [\<lparr>dvcfile = [''dir.dvc''], stage_name = None, recorded = [([''dir''], Some ''d0.dir'')]\<rparr>,
      \<lparr>dvcfile = [''dvc.yaml''], stage_name = Some ''copy-foo-bar'',
        recorded = [([''bar''], Some ''#foo'')]\<rparr>]\<rparr>"

section \<open>Ordered dictionaries\<close>

lemmas PARAM_defs =
  PARAM_PATH_def PARAM_PARAMS_def PARAM_DEPS_def PARAM_OUTS_def PARAM_CACHE_def
  PARAM_METRIC_def PARAM_PLOT_def PARAM_PERSIST_def PARAM_CMD_def PARAM_WDIR_def
  PARAM_METRICS_def PARAM_PLOTS_def PARAM_FROZEN_def PARAM_ALWAYS_CHANGED_def

lemma map_fst_od_set:
  "map fst (od_set k v d) = (if k \<in> set (map fst d) then map fst d else map fst d @ [k])"
  by (induction d) (force split: if_splits)+

lemma od_set_fresh: "k \<notin> set (map fst d) \<Longrightarrow> od_set k v d = d @ [(k, v)]"
  by (induction d) auto

lemma set_od_set: "set (od_set k v d) \<subseteq> insert (k, v) (set d)"
  by (induction d) (auto split: if_splits)

lemma od_set_not_Nil: "od_set k v d \<noteq> []"
  by (cases d) (auto split: if_splits)

lemma map_of_od_set: "map_of (od_set k v d) = (map_of d)(k \<mapsto> v)"
  by (induction d) (auto simp: fun_eq_iff)

lemma od_fold_distinct:
  "distinct (map fst (acc @ xs)) \<Longrightarrow> foldl (\<lambda>d (k, v). od_set k v d) acc xs = acc @ xs"
proof (induction xs arbitrary: acc)
  case Nil
  then show ?case by simp
next
  case (Cons x xs)
  obtain k v where x: "x = (k, v)" by (cases x)
  from Cons.prems have fresh: "k \<notin> set (map fst acc)" by (auto simp: x)
  have "distinct (map fst ((acc @ [(k, v)]) @ xs))" using Cons.prems by (simp add: x)
  from Cons.IH[OF this] show ?case by (simp add: x od_set_fresh[OF fresh])
qed

lemma OrderedDict_distinct: "distinct (map fst xs) \<Longrightarrow> OrderedDict xs = xs"
  using od_fold_distinct[of "[]" xs] by (simp add: OrderedDict_def)

lemma od_fold_set:
  "set (foldl (\<lambda>d (k, v). od_set k v d) acc xs) \<subseteq> set acc \<union> set xs"
proof (induction xs arbitrary: acc)
  case Nil
  then show ?case by simp
next
  case (Cons x xs)
  obtain k v where x: "x = (k, v)" by (cases x)
  show ?case using Cons.IH[of "od_set k v acc"] set_od_set[of k v acc] by (auto simp: x)
qed

lemma set_OrderedDict: "set (OrderedDict xs) \<subseteq> set xs"
  using od_fold_set[of "[]" xs] by (simp add: OrderedDict_def)

lemma od_fold_keys:
  "set (map fst (foldl (\<lambda>d (k, v). od_set k v d) acc xs)) = set (map fst acc) \<union> set (map fst xs)"
proof (induction xs arbitrary: acc)
  case Nil
  then show ?case by simp
next
  case (Cons x xs)
  obtain k v where x: "x = (k, v)" by (cases x)
  show ?case using Cons.IH[of "od_set k v acc"] by (auto simp: x map_fst_od_set)
qed

lemma od_fold_sorted:
  "sorted (map fst acc @ map fst xs) \<Longrightarrow>
   sorted (map fst (foldl (\<lambda>d (k, v). od_set k v d) acc xs))"
proof (induction xs arbitrary: acc)
  case Nil
  then show ?case by simp
next
  case (Cons x xs)
  obtain k v where x: "x = (k, v)" by (cases x)
  have "sorted (map fst (od_set k v acc) @ map fst xs)"
    using Cons.prems by (auto simp: x map_fst_od_set sorted_append)
  from Cons.IH[OF this] show ?case by (simp add: x)
qed

lemma OrderedDict_sorted: "sorted (map fst xs) \<Longrightarrow> sorted (map fst (OrderedDict xs))"
  using od_fold_sorted[of "[]" xs] by (simp add: OrderedDict_def)

lemma OrderedDict_Nil_iff: "OrderedDict xs = [] \<longleftrightarrow> xs = []"
proof -
  have "set (map fst (OrderedDict xs)) = set (map fst xs)"
    using od_fold_keys[of "[]" xs] by (simp add: OrderedDict_def)
  then show ?thesis by (metis list.map_disc_iff set_empty)
qed

lemma serialize_outs_loop_filter:
  "serialize_outs_loop xs (os, ms, pls) =
     (os @ map serialize_out (filter (\<lambda>out. \<not> truthy (plot out) \<and> \<not> truthy (metric out)) xs),
      ms @ map serialize_out (filter (\<lambda>out. \<not> truthy (plot out) \<and> truthy (metric out)) xs),
      pls @ map serialize_out (filter (\<lambda>out. truthy (plot out)) xs))"
  by (induction xs arbitrary: os ms pls) auto

lemma sort_key_Nil_iff: "sort_key f xs = [] \<longleftrightarrow> xs = []"
  by (metis length_sort length_0_conv)

lemma keys_loop_ok:
  "list_all (\<lambda>p. params p \<noteq> Params_other) xs \<Longrightarrow>
   serialize_params_keys_loop xs keys =
     Inr (concat (map (\<lambda>p. map PStr (sort (params_keys (params p))))
                   (rev (filter (\<lambda>p. def_path p = DEFAULT_PARAMS_FILE) xs)))
          @ keys @
          map (\<lambda>p. PDict [(def_path p, PList (map PStr (sort (params_keys (params p)))))])
            (filter (\<lambda>p. def_path p \<noteq> DEFAULT_PARAMS_FILE \<and> params_keys (params p) \<noteq> []) xs))"
proof (induction xs arbitrary: keys)
  case Nil
  then show ?case by simp
next
  case (Cons x xs)
  then show ?case by (simp add: dumpd_def Let_def sort_key_Nil_iff)
qed

lemma keys_loop_fail:
  "\<not> list_all (\<lambda>p. params p \<noteq> Params_other) xs \<Longrightarrow>
   serialize_params_keys_loop xs keys = Inl AssertionError"
  by (induction xs arbitrary: keys) (auto simp: dumpd_def Let_def sort_key_Nil_iff)

lemma list_all_sort_key: "list_all P (sort_key f xs) = list_all P xs"
  by (simp add: list_all_iff)

lemma distinct_od_set: "distinct (map fst d) \<Longrightarrow> distinct (map fst (od_set k v d))"
  by (simp add: map_fst_od_set)

lemma map_fst_move_to_end_first:
  "k \<in> set (map fst d) \<Longrightarrow>
   map fst (move_to_end_first k d) = k # filter (\<lambda>k'. k' \<noteq> k) (map fst d)"
proof -
  assume "k \<in> set (map fst d)"
  then obtain v where "map_of d k = Some v"
    by (metis map_of_eq_None_iff not_Some_eq set_map)
  then show ?thesis by (simp add: move_to_end_first_def filter_map comp_def)
qed

lemma set_move_to_end_first: "set (move_to_end_first k d) \<subseteq> set d"
  by (auto simp: move_to_end_first_def split: option.splits dest: map_of_SomeD)

lemma keys_move_to_end_first:
  "set (map fst (move_to_end_first k d)) = set (map fst d)"
proof (cases "map_of d k")
  case None
  then show ?thesis by (simp add: move_to_end_first_def)
next
  case (Some v)
  then have "k \<in> set (map fst d)" by (metis map_of_eq_None_iff option.distinct(1) set_map)
  then show ?thesis by (auto simp: map_fst_move_to_end_first)
qed

lemma keys_od_set: "set (map fst (od_set k v d)) = insert k (set (map fst d))"
  by (auto simp: map_fst_od_set)

lemma kv_ok_step_other:
  assumes "kv_ok kv" and "pth \<noteq> DEFAULT_PARAMS_FILE"
    and "\<forall>k \<in> set (map fst kv). k \<noteq> DEFAULT_PARAMS_FILE \<longrightarrow> k \<le> pth"
    and "sorted (map fst items)"
  shows "kv_ok (od_set pth (PDict items) kv)"
proof -
  let ?kv = "od_set pth (PDict items) kv"
  have keys: "map fst ?kv = (if pth \<in> set (map fst kv) then map fst kv else map fst kv @ [pth])"
    by (rule map_fst_od_set)
  have 1: "distinct (map fst ?kv)" using assms(1) by (simp add: kv_ok_def map_fst_od_set)
  have 2: "sorted (filter (\<lambda>k. k \<noteq> DEFAULT_PARAMS_FILE) (map fst ?kv))"
    using assms(1,2,3) unfolding keys by (auto simp: kv_ok_def sorted_append)
  have 3: "DEFAULT_PARAMS_FILE \<in> set (map fst ?kv) \<longrightarrow> (\<exists>t. map fst ?kv = DEFAULT_PARAMS_FILE # t)"
    using assms(1,2) unfolding keys by (auto simp: kv_ok_def)
  have 4: "\<forall>fv \<in> set ?kv. \<exists>its. snd fv = PDict its \<and> sorted (map fst its)"
    using assms(1,4) set_od_set[of pth "PDict items" kv] by (auto simp: kv_ok_def)
  from 1 2 3 4 show ?thesis unfolding kv_ok_def by blast
qed

lemma kv_ok_step_default:
  assumes "kv_ok kv" and "sorted (map fst items)"
  shows "kv_ok (move_to_end_first DEFAULT_PARAMS_FILE (od_set DEFAULT_PARAMS_FILE (PDict items) kv))"
proof -
  let ?D = DEFAULT_PARAMS_FILE
  let ?kv1 = "od_set ?D (PDict items) kv"
  let ?kv = "move_to_end_first ?D ?kv1"
  have mem: "?D \<in> set (map fst ?kv1)" by (simp add: map_fst_od_set)
  have keys: "map fst ?kv = ?D # filter (\<lambda>k'. k' \<noteq> ?D) (map fst ?kv1)"
    by (rule map_fst_move_to_end_first[OF mem])
  have flt: "filter (\<lambda>k'. k' \<noteq> ?D) (map fst ?kv1) = filter (\<lambda>k'. k' \<noteq> ?D) (map fst kv)"
    by (simp add: map_fst_od_set)
  have 1: "distinct (map fst ?kv)" using assms(1) unfolding keys flt by (simp add: kv_ok_def)
  have 2: "sorted (filter (\<lambda>k. k \<noteq> ?D) (map fst ?kv))"
    using assms(1) unfolding keys flt by (simp add: kv_ok_def)
  have 3: "?D \<in> set (map fst ?kv) \<longrightarrow> (\<exists>t. map fst ?kv = ?D # t)"
    unfolding keys by simp
  have 4: "\<forall>fv \<in> set ?kv. \<exists>its. snd fv = PDict its \<and> sorted (map fst its)"
    using assms set_od_set[of ?D "PDict items" kv] set_move_to_end_first[of ?D ?kv1]
    by (auto simp: kv_ok_def)
  from 1 2 3 4 show ?thesis unfolding kv_ok_def by blast
qed

lemma sorted_dict_items:
  "sorted (map fst (OrderedDict (map (\<lambda>key. (key, dict_get d key)) (sort (map fst d)))))"
  by (rule OrderedDict_sorted) (simp add: comp_def)

lemma values_loop_ok:
  assumes "kv_ok kv" and "sorted (map def_path xs)"
    and "\<forall>k \<in> set (map fst kv). k \<noteq> DEFAULT_PARAMS_FILE \<longrightarrow> (\<forall>x \<in> set xs. k \<le> def_path x)"
  shows "kv_ok (serialize_params_values_loop xs kv)"
  using assms
proof (induction xs arbitrary: kv)
  case Nil
  then show ?case by simp
next
  case (Cons x xs)
  show ?case
  proof (cases "params x")
    case (Params_dict d)
    let ?items = "OrderedDict (map (\<lambda>key. (key, dict_get d key)) (sort (map fst d)))"
    let ?kv1 = "od_set (def_path x) (PDict ?items) kv"
    let ?kv2 = "if def_path x = DEFAULT_PARAMS_FILE then move_to_end_first (def_path x) ?kv1 else ?kv1"
    have step: "serialize_params_values_loop (x # xs) kv = serialize_params_values_loop xs ?kv2"
      by (simp add: dumpd_def Params_dict Let_def)
    have ok2: "kv_ok ?kv2"
      using kv_ok_step_other[of kv "def_path x" ?items] kv_ok_step_default[of kv ?items]
        Cons.prems(1,3) sorted_dict_items[of d]
      by auto
    have srt: "sorted (map def_path xs)" using Cons.prems(2) by simp
    have keys2: "set (map fst ?kv2) \<subseteq> insert (def_path x) (set (map fst kv))"
      by (simp del: set_map add: keys_move_to_end_first keys_od_set)
    have bnd: "\<forall>k \<in> set (map fst ?kv2). k \<noteq> DEFAULT_PARAMS_FILE \<longrightarrow> (\<forall>y \<in> set xs. k \<le> def_path y)"
    proof (intro ballI impI)
      fix k y assume k: "k \<in> set (map fst ?kv2)" "k \<noteq> DEFAULT_PARAMS_FILE" and y: "y \<in> set xs"
      from k(1) keys2 have "k = def_path x \<or> k \<in> set (map fst kv)" by blast
      then show "k \<le> def_path y"
      proof
        assume "k = def_path x"
        then show ?thesis using Cons.prems(2) y by auto
      next
        assume "k \<in> set (map fst kv)"
        then show ?thesis using Cons.prems(3) k(2) y by auto
      qed
    qed
    from Cons.IH[OF ok2 srt bnd] step show ?thesis by simp
  next
    case (Params_list l)
    have "serialize_params_values_loop (x # xs) kv = serialize_params_values_loop xs kv"
      by (simp add: dumpd_def Params_list)
    moreover have "kv_ok (serialize_params_values_loop xs kv)"
      using Cons.IH[of kv] Cons.prems by auto
    ultimately show ?thesis by simp
  next
    case Params_other
    have "serialize_params_values_loop (x # xs) kv = serialize_params_values_loop xs kv"
      by (simp add: dumpd_def Params_other)
    moreover have "kv_ok (serialize_params_values_loop xs kv)"
      using Cons.IH[of kv] Cons.prems by auto
    ultimately show ?thesis by simp
  qed
qed

lemma values_loop_keys:
  "set (map fst (serialize_params_values_loop xs kv)) =
     set (map fst kv) \<union> def_path ` {p \<in> set xs. \<exists>d. params p = Params_dict d}"
proof (induction xs arbitrary: kv)
  case Nil
  then show ?case by simp
next
  case (Cons x xs)
  show ?case
  proof (cases "params x")
    case (Params_dict d)
    let ?items = "OrderedDict (map (\<lambda>key. (key, dict_get d key)) (sort (map fst d)))"
    let ?kv1 = "od_set (def_path x) (PDict ?items) kv"
    let ?kv2 = "if def_path x = DEFAULT_PARAMS_FILE then move_to_end_first (def_path x) ?kv1 else ?kv1"
    have step: "serialize_params_values_loop (x # xs) kv = serialize_params_values_loop xs ?kv2"
      by (simp add: dumpd_def Params_dict Let_def)
    have keys2: "set (map fst ?kv2) = insert (def_path x) (set (map fst kv))"
      by (simp del: set_map add: keys_move_to_end_first keys_od_set)
    have "def_path ` {p \<in> set (x # xs). \<exists>d. params p = Params_dict d} =
          insert (def_path x) (def_path ` {p \<in> set xs. \<exists>d. params p = Params_dict d})"
      using Params_dict by auto
    then show ?thesis unfolding step Cons.IH[of ?kv2] keys2 by auto
  next
    case (Params_list l)
    have step: "serialize_params_values_loop (x # xs) kv = serialize_params_values_loop xs kv"
      by (simp add: dumpd_def Params_list)
    have "{p \<in> set (x # xs). \<exists>d. params p = Params_dict d} = {p \<in> set xs. \<exists>d. params p = Params_dict d}"
      using Params_list by auto
    then show ?thesis unfolding step Cons.IH[of kv] by simp
  next
    case Params_other
    have step: "serialize_params_values_loop (x # xs) kv = serialize_params_values_loop xs kv"
      by (simp add: dumpd_def Params_other)
    have "{p \<in> set (x # xs). \<exists>d. params p = Params_dict d} = {p \<in> set xs. \<exists>d. params p = Params_dict d}"
      using Params_other by auto
    then show ?thesis unfolding step Cons.IH[of kv] by simp
  qed
qed

section \<open>Classification of outputs\<close>

text \<open>
  C9: \<^verbatim>\<open>_serialize_outs\<close> puts every output in exactly one of the lists \<^verbatim>\<open>outs\<close>, \<^verbatim>\<open>metrics\<close>
  and \<^verbatim>\<open>plots\<close>, the plot flag winning over the metric flag: the plots are the outputs with a
  truthy \<^verbatim>\<open>plot\<close> (whatever \<^verbatim>\<open>metric\<close> is), the metrics those with a falsy \<^verbatim>\<open>plot\<close> and a
  truthy \<^verbatim>\<open>metric\<close>, the outs those with neither; each list is in the order of the paths, and
  together the three hold as many entries as there are outputs.
\<close>

theorem serialize_outs_buckets:
  "serialize_outs outputs =
     (map serialize_out
        (filter (\<lambda>out. \<not> truthy (plot out) \<and> \<not> truthy (metric out)) (sort_by_path outputs)),
      map serialize_out
        (filter (\<lambda>out. \<not> truthy (plot out) \<and> truthy (metric out)) (sort_by_path outputs)),
      map serialize_out
        (filter (\<lambda>out. truthy (plot out)) (sort_by_path outputs)))
   \<and> (case serialize_outs outputs of (os, ms, pls) \<Rightarrow>
        length os + length ms + length pls = length outputs)"
proof -
  let ?xs = "sort_by_path outputs"
  have eq: "serialize_outs outputs =
     (map serialize_out (filter (\<lambda>out. \<not> truthy (plot out) \<and> \<not> truthy (metric out)) ?xs),
      map serialize_out (filter (\<lambda>out. \<not> truthy (plot out) \<and> truthy (metric out)) ?xs),
      map serialize_out (filter (\<lambda>out. truthy (plot out)) ?xs))"
    by (simp add: serialize_outs_def serialize_outs_loop_filter)
  have len: "length ?xs = length outputs" by (simp add: sort_by_path_def)
  have "length (filter (\<lambda>out. \<not> truthy (plot out) \<and> \<not> truthy (metric out)) xs)
      + length (filter (\<lambda>out. \<not> truthy (plot out) \<and> truthy (metric out)) xs)
      + length (filter (\<lambda>out. truthy (plot out)) xs) = length xs" for xs :: "'a base_output_scheme list"
    by (induction xs) auto
  from this[of ?xs] eq len show ?thesis by simp
qed

theorem serialize_outs_buckets_witness:
  "serialize_outs [ex_out_b, ex_out_a, ex_out_c] =
     ([PStr ''b''], [PStr ''c''],
      [PDict [(''a'', PDict [(''cache'', PBool False), (''persist'', PBool True), (''x'', PStr ''t'')])]])"
  using serialize_outs_buckets[of "[ex_out_b, ex_out_a, ex_out_c]"]
  by (simp add: ex_out_a_def ex_out_b_def ex_out_c_def sort_by_path_def serialize_out_def
      get_flags_def OrderedDict_def PARAM_defs)

section \<open>Lock records\<close>

lemmas ex_defs = ex_out_a_def ex_out_b_def ex_out_c_def ex_params_default_def
  ex_params_other_def ex_stage_def ex_stage_no_cmd_def

lemma map_of_OrderedDict: "map_of (OrderedDict xs) = map_of (rev xs)"
proof -
  have "map_of (foldl (\<lambda>d (k, v). od_set k v d) acc xs) = map_of (rev xs @ acc)" for acc
  proof (induction xs arbitrary: acc)
    case Nil
    then show ?case by simp
  next
    case (Cons x xs)
    obtain k v where x: "x = (k, v)" by (cases x)
    show ?case by (simp add: x Cons.IH map_of_od_set fun_eq_iff map_add_def)
  qed
  from this[of "[]"] show ?thesis by (simp add: OrderedDict_def)
qed

lemma single_stage_lockfile_value:
  assumes "cmd st = Some c" and "c \<noteq> []"
  shows "to_single_stage_lockfile st = Inr
     ([(''cmd'', PStr c)] @
      (if snd (split_params_deps st) = [] then []
       else [(''deps'', PList (map lock_entry (sort_by_path (snd (split_params_deps st)))))]) @
      (if serialize_params_values (fst (split_params_deps st)) = [] then []
       else [(''params'', PDict (serialize_params_values (fst (split_params_deps st))))]) @
      (if outs st = [] then []
       else [(''outs'', PList (map lock_entry (sort_by_path (outs st))))]))"
  using assms
  by (simp add: to_single_stage_lockfile_def py_opt_str_def OrderedDict_def Let_def
      PARAM_defs split_beta sort_by_path_def sort_key_Nil_iff)

lemma ex_stage_lockfile:
  "to_single_stage_lockfile ex_stage = Inr
     [(''cmd'', PStr ''echo''),
      (''deps'', PList [PDict [(''path'', PStr ''b''), (''md5'', PStr ''b0'')],
                        PDict [(''path'', PStr ''c''), (''md5'', PStr ''c0'')]]),
      (''params'', PDict [(''params.yaml'', PDict [(''epochs'', PInt 2), (''lr'', PInt 1)]),
                          (''aa.yaml'', PDict [(''b'', PInt 2), (''z'', PInt 1)])]),
      (''outs'', PList [PDict [(''path'', PStr ''a''), (''md5'', PStr ''a0'')],
                        PDict [(''path'', PStr ''b''), (''md5'', PStr ''b0'')]])]"
  by (simp add: ex_defs to_single_stage_lockfile_def py_opt_str_def OrderedDict_def Let_def
      PARAM_defs split_params_deps_def sort_by_path_def lock_entry_def
      serialize_params_values_def dumpd_def DEFAULT_PARAMS_FILE_def move_to_end_first_def
      dict_get_def)

text \<open>
  C10: \<^verbatim>\<open>to_single_stage_lockfile\<close> starts with \<^verbatim>\<open>assert stage.cmd\<close>. For a stage whose
  command is \<^verbatim>\<open>None\<close> or the empty string the assertion fails and no record is produced;
  whenever a record is produced, the stage has a non-empty command and the record holds it
  under \<^verbatim>\<open>cmd\<close>.
\<close>

theorem to_single_stage_lockfile_asserts_cmd:
  "(cmd st = None \<or> cmd st = Some [] \<longrightarrow> to_single_stage_lockfile st = Inl AssertionError)
   \<and> (\<forall>r. to_single_stage_lockfile st = Inr r \<longrightarrow>
         (\<exists>c. cmd st = Some c \<and> c \<noteq> [] \<and> map_of r ''cmd'' = Some (PStr c)))"
proof (intro conjI allI impI)
  assume "cmd st = None \<or> cmd st = Some []"
  then show "to_single_stage_lockfile st = Inl AssertionError"
    by (auto simp: to_single_stage_lockfile_def py_opt_str_def)
next
  fix r assume r: "to_single_stage_lockfile st = Inr r"
  then have t: "truthy (py_opt_str (cmd st))"
    by (auto simp: to_single_stage_lockfile_def split: if_splits)
  then obtain c where c: "cmd st = Some c" "c \<noteq> []"
    by (cases "cmd st") (auto simp: py_opt_str_def)
  from single_stage_lockfile_value[OF c] r have "map_of r ''cmd'' = Some (PStr c)"
    by auto
  with c show "\<exists>c. cmd st = Some c \<and> c \<noteq> [] \<and> map_of r ''cmd'' = Some (PStr c)" by blast
qed

theorem to_single_stage_lockfile_asserts_cmd_witness:
  "to_single_stage_lockfile ex_stage_no_cmd = Inl AssertionError
   \<and> to_single_stage_lockfile (ex_stage_no_cmd\<lparr>cmd := Some []\<rparr>) = Inl AssertionError
   \<and> (\<exists>r. to_single_stage_lockfile ex_stage = Inr r \<and> map_of r ''cmd'' = Some (PStr ''echo''))"
proof -
  have a: "to_single_stage_lockfile ex_stage_no_cmd = Inl AssertionError"
    using to_single_stage_lockfile_asserts_cmd[of ex_stage_no_cmd] by (simp add: ex_defs)
  have b: "to_single_stage_lockfile (ex_stage_no_cmd\<lparr>cmd := Some []\<rparr>) = Inl AssertionError"
    using to_single_stage_lockfile_asserts_cmd[of "ex_stage_no_cmd\<lparr>cmd := Some []\<rparr>"]
    by (simp add: ex_defs)
  have "\<exists>c. cmd ex_stage = Some c \<and> c \<noteq> [] \<and>
      map_of [(''cmd'', PStr ''echo''),
      (''deps'', PList [PDict [(''path'', PStr ''b''), (''md5'', PStr ''b0'')],
                        PDict [(''path'', PStr ''c''), (''md5'', PStr ''c0'')]]),
      (''params'', PDict [(''params.yaml'', PDict [(''epochs'', PInt 2), (''lr'', PInt 1)]),
                          (''aa.yaml'', PDict [(''b'', PInt 2), (''z'', PInt 1)])]),
      (''outs'', PList [PDict [(''path'', PStr ''a''), (''md5'', PStr ''a0'')],
                        PDict [(''path'', PStr ''b''), (''md5'', PStr ''b0'')]])] ''cmd'' = Some (PStr c)"
    using to_single_stage_lockfile_asserts_cmd[of ex_stage] ex_stage_lockfile by blast
  then have "map_of [(''cmd'', PStr ''echo''),
      (''deps'', PList [PDict [(''path'', PStr ''b''), (''md5'', PStr ''b0'')],
                        PDict [(''path'', PStr ''c''), (''md5'', PStr ''c0'')]]),
      (''params'', PDict [(''params.yaml'', PDict [(''epochs'', PInt 2), (''lr'', PInt 1)]),
                          (''aa.yaml'', PDict [(''b'', PInt 2), (''z'', PInt 1)])]),
      (''outs'', PList [PDict [(''path'', PStr ''a''), (''md5'', PStr ''a0'')],
                        PDict [(''path'', PStr ''b''), (''md5'', PStr ''b0'')]])] ''cmd'' =
      Some (PStr ''echo'')"
    by simp
  with ex_stage_lockfile have
    "\<exists>r. to_single_stage_lockfile ex_stage = Inr r \<and> map_of r ''cmd'' = Some (PStr ''echo'')"
    by blast
  with a b show ?thesis by blast
qed

lemma map_insort_key: "map f (insort_key f x ys) = insort (f x) (map f ys)"
  by (induction ys) simp_all

lemma map_sort_key: "map f (sort_key f xs) = sort (map f xs)"
  by (induction xs) (simp_all add: map_insort_key)

lemma map_def_path_sort_by_path: "map def_path (sort_by_path xs) = sort (map def_path xs)"
  by (simp add: sort_by_path_def map_sort_key)

lemma lock_entry_shape:
  "checksum_type item \<noteq> ''path'' \<Longrightarrow>
   lock_entry item = PDict [(''path'', PStr (def_path item)), (checksum_type item, checksum item)]"
  by (simp add: lock_entry_def OrderedDict_def PARAM_defs)

lemma lock_paths_entries:
  "\<forall>x \<in> set xs. checksum_type x \<noteq> ''path'' \<Longrightarrow>
   lock_paths (PList (map lock_entry xs)) = map def_path xs"
  by (induction xs) (simp_all add: lock_paths_def lock_entry_shape PARAM_defs)

lemma serialize_params_values_ok: "kv_ok (serialize_params_values ps)"
proof -
  have "kv_ok []" by (simp add: kv_ok_def)
  moreover have "sorted (map def_path (sort_by_path ps))" by (simp add: sort_by_path_def)
  ultimately show ?thesis
    unfolding serialize_params_values_def by (intro values_loop_ok) simp_all
qed

text \<open>
  C4: for a stage with a (non-empty) command, \<^verbatim>\<open>to_single_stage_lockfile\<close> returns a record
  and \<^verbatim>\<open>to_lockfile\<close> (for a named stage) maps the stage's name to that record. The keys of
  the record are among \<^verbatim>\<open>cmd\<close>, \<^verbatim>\<open>deps\<close>, \<^verbatim>\<open>params\<close>, \<^verbatim>\<open>outs\<close>; \<^verbatim>\<open>cmd\<close> is the command; \<^verbatim>\<open>deps\<close>
  and \<^verbatim>\<open>outs\<close> (present when there are any) are the lists of the entries
  \<^verbatim>\<open>{path, <checksum type>: checksum}\<close> of the dependencies and outputs in ascending order of
  their paths; \<^verbatim>\<open>params\<close> (present when not empty) maps every file to a dictionary of key and
  value. Read back from the lists, the \<^verbatim>\<open>path\<close> fields are the sorted paths (the checksum type
  being a name other than \<^verbatim>\<open>path\<close>, such as \<^verbatim>\<open>md5\<close>).
\<close>

theorem lockfile_shape_sorted:
  assumes "cmd st = Some c" and "c \<noteq> []"
  shows "\<exists>r. to_single_stage_lockfile st = Inr r
     \<and> (\<forall>n. name st = Some n \<and> n \<noteq> [] \<longrightarrow> to_lockfile st = Inr [(Some n, r)])
     \<and> set (map fst r) \<subseteq> {''cmd'', ''deps'', ''params'', ''outs''}
     \<and> distinct (map fst r)
     \<and> map_of r ''cmd'' = Some (PStr c)
     \<and> map_of r ''deps'' =
          (if snd (split_params_deps st) = [] then None
           else Some (PList (map lock_entry (sort_by_path (snd (split_params_deps st))))))
     \<and> map_of r ''outs'' =
          (if outs st = [] then None
           else Some (PList (map lock_entry (sort_by_path (outs st)))))
     \<and> map_of r ''params'' =
          (if serialize_params_values (fst (split_params_deps st)) = [] then None
           else Some (PDict (serialize_params_values (fst (split_params_deps st)))))
     \<and> map def_path (sort_by_path (snd (split_params_deps st))) =
          sort (map def_path (snd (split_params_deps st)))
     \<and> map def_path (sort_by_path (outs st)) = sort (map def_path (outs st))
     \<and> ((\<forall>d \<in> set (snd (split_params_deps st)). checksum_type d \<noteq> ''path'') \<longrightarrow>
          lock_paths (PList (map lock_entry (sort_by_path (snd (split_params_deps st))))) =
            sort (map def_path (snd (split_params_deps st))))
     \<and> ((\<forall>out \<in> set (outs st). checksum_type out \<noteq> ''path'') \<longrightarrow>
          lock_paths (PList (map lock_entry (sort_by_path (outs st)))) =
            sort (map def_path (outs st)))
     \<and> (\<forall>item :: base_output. checksum_type item \<noteq> ''path'' \<longrightarrow>
          lock_entry item =
            PDict [(''path'', PStr (def_path item)), (checksum_type item, checksum item)])
     \<and> (\<forall>fv \<in> set (serialize_params_values (fst (split_params_deps st))).
          \<exists>kvs. snd fv = PDict kvs \<and> sorted (map fst kvs))"
proof -
  let ?ds = "snd (split_params_deps st)"
  let ?pv = "serialize_params_values (fst (split_params_deps st))"
  let ?r = "[(''cmd'', PStr c)] @
      (if ?ds = [] then [] else [(''deps'', PList (map lock_entry (sort_by_path ?ds)))]) @
      (if ?pv = [] then [] else [(''params'', PDict ?pv)]) @
      (if outs st = [] then [] else [(''outs'', PList (map lock_entry (sort_by_path (outs st))))])"
  have r: "to_single_stage_lockfile st = Inr ?r"
    by (rule single_stage_lockfile_value[OF assms])
  have lf: "\<forall>n. name st = Some n \<and> n \<noteq> [] \<longrightarrow> to_lockfile st = Inr [(Some n, ?r)]"
    by (simp add: to_lockfile_def r py_opt_str_def)
  have k1: "set (map fst ?r) \<subseteq> {''cmd'', ''deps'', ''params'', ''outs''}" by simp
  have k2: "distinct (map fst ?r)" by simp
  have m1: "map_of ?r ''cmd'' = Some (PStr c)" by simp
  have m2: "map_of ?r ''deps'' =
      (if ?ds = [] then None else Some (PList (map lock_entry (sort_by_path ?ds))))" by simp
  have m3: "map_of ?r ''outs'' =
      (if outs st = [] then None else Some (PList (map lock_entry (sort_by_path (outs st)))))"
    by simp
  have m4: "map_of ?r ''params'' = (if ?pv = [] then None else Some (PDict ?pv))" by simp
  have s1: "map def_path (sort_by_path ?ds) = sort (map def_path ?ds)"
    by (rule map_def_path_sort_by_path)
  have s2: "map def_path (sort_by_path (outs st)) = sort (map def_path (outs st))"
    by (rule map_def_path_sort_by_path)
  have p1: "(\<forall>d \<in> set ?ds. checksum_type d \<noteq> ''path'') \<longrightarrow>
      lock_paths (PList (map lock_entry (sort_by_path ?ds))) = sort (map def_path ?ds)"
    using lock_paths_entries[of "sort_by_path ?ds"] s1 by (simp add: sort_by_path_def)
  have p2: "(\<forall>out \<in> set (outs st). checksum_type out \<noteq> ''path'') \<longrightarrow>
      lock_paths (PList (map lock_entry (sort_by_path (outs st)))) = sort (map def_path (outs st))"
    using lock_paths_entries[of "sort_by_path (outs st)"] s2 by (simp add: sort_by_path_def)
  have e: "\<forall>item :: base_output. checksum_type item \<noteq> ''path'' \<longrightarrow>
      lock_entry item = PDict [(''path'', PStr (def_path item)), (checksum_type item, checksum item)]"
    by (simp add: lock_entry_shape)
  have v: "\<forall>fv \<in> set ?pv. \<exists>kvs. snd fv = PDict kvs \<and> sorted (map fst kvs)"
    using serialize_params_values_ok[of "fst (split_params_deps st)"] by (simp add: kv_ok_def)
  from r lf k1 k2 m1 m2 m3 m4 s1 s2 p1 p2 e v show ?thesis by blast
qed

theorem lockfile_shape_sorted_witness:
  "cmd ex_stage = Some ''echo'' \<and> ''echo'' \<noteq> []
   \<and> to_lockfile ex_stage = Inr [(Some ''train'',
       [(''cmd'', PStr ''echo''),
        (''deps'', PList [PDict [(''path'', PStr ''b''), (''md5'', PStr ''b0'')],
                          PDict [(''path'', PStr ''c''), (''md5'', PStr ''c0'')]]),
        (''params'', PDict [(''params.yaml'', PDict [(''epochs'', PInt 2), (''lr'', PInt 1)]),
                            (''aa.yaml'', PDict [(''b'', PInt 2), (''z'', PInt 1)])]),
        (''outs'', PList [PDict [(''path'', PStr ''a''), (''md5'', PStr ''a0'')],
                          PDict [(''path'', PStr ''b''), (''md5'', PStr ''b0'')]])])]
   \<and> lock_paths (PList [PDict [(''path'', PStr ''b''), (''md5'', PStr ''b0'')],
                          PDict [(''path'', PStr ''c''), (''md5'', PStr ''c0'')]]) = [''b'', ''c'']"
proof -
  have h1: "cmd ex_stage = Some ''echo''" by (simp add: ex_defs)
  have h2: "''echo'' \<noteq> []" by simp
  from lockfile_shape_sorted[OF h1 h2] obtain r where
    r: "to_single_stage_lockfile ex_stage = Inr r" and
    n: "\<forall>n. name ex_stage = Some n \<and> n \<noteq> [] \<longrightarrow> to_lockfile ex_stage = Inr [(Some n, r)]"
    by blast
  have "name ex_stage = Some ''train''" by (simp add: ex_defs)
  with n have "to_lockfile ex_stage = Inr [(Some ''train'', r)]" by simp
  moreover from r have "r = [(''cmd'', PStr ''echo''),
        (''deps'', PList [PDict [(''path'', PStr ''b''), (''md5'', PStr ''b0'')],
                          PDict [(''path'', PStr ''c''), (''md5'', PStr ''c0'')]]),
        (''params'', PDict [(''params.yaml'', PDict [(''epochs'', PInt 2), (''lr'', PInt 1)]),
                            (''aa.yaml'', PDict [(''b'', PInt 2), (''z'', PInt 1)])]),
        (''outs'', PList [PDict [(''path'', PStr ''a''), (''md5'', PStr ''a0'')],
                          PDict [(''path'', PStr ''b''), (''md5'', PStr ''b0'')]])]"
    by (simp add: ex_stage_lockfile)
  ultimately show ?thesis using h1 by (simp add: lock_paths_def PARAM_defs)
qed

section \<open>Order of the parameters\<close>

lemma serialize_params_keys_value:
  assumes "list_all (\<lambda>p. params p \<noteq> Params_other) ps"
  shows "serialize_params_keys ps = Inr
     (map PStr (concat (map (\<lambda>p. sort (params_keys (params p)))
        (rev (filter (\<lambda>p. def_path p = DEFAULT_PARAMS_FILE) (sort_by_path ps))))) @
      map (\<lambda>p. PDict [(def_path p, PList (map PStr (sort (params_keys (params p)))))])
        (filter (\<lambda>p. def_path p \<noteq> DEFAULT_PARAMS_FILE \<and> params_keys (params p) \<noteq> [])
           (sort_by_path ps)))"
proof -
  have "list_all (\<lambda>p. params p \<noteq> Params_other) (sort_by_path ps)"
    using assms by (simp add: sort_by_path_def list_all_sort_key)
  from keys_loop_ok[OF this, of "[]"] show ?thesis
    by (simp add: serialize_params_keys_def map_concat comp_def)
qed

lemma filter_sort_by_path_single:
  assumes "filter P ps = [p]"
  shows "filter P (sort_by_path ps) = [p]"
  using assms by (simp add: sort_by_path_def filter_sort)

text \<open>
  C6: in the \<^verbatim>\<open>params\<close> list of the pipeline file (\<^verbatim>\<open>_serialize_params_keys\<close>, when no
  assertion fails) the keys of the default parameter file come first and bare, followed by
  one entry \<^verbatim>\<open>{file: keys}\<close> for each other file with keys, in ascending order of the files'
  paths, the keys of each file sorted; with one dependency on the default file the bare
  keys are its sorted keys. In the \<^verbatim>\<open>params\<close> mapping of the lock record
  (\<^verbatim>\<open>_serialize_params_values\<close>) every file with a dictionary of values has one entry, the
  default file's entry is the first when there is one, the other files follow in ascending
  order, and the keys under every file ascend.
\<close>

theorem params_default_file_first:
  "(list_all (\<lambda>p. params p \<noteq> Params_other) ps \<longrightarrow>
      serialize_params_keys ps = Inr
        (map PStr (concat (map (\<lambda>p. sort (params_keys (params p)))
           (rev (filter (\<lambda>p. def_path p = DEFAULT_PARAMS_FILE) (sort_by_path ps))))) @
         map (\<lambda>p. PDict [(def_path p, PList (map PStr (sort (params_keys (params p)))))])
           (filter (\<lambda>p. def_path p \<noteq> DEFAULT_PARAMS_FILE \<and> params_keys (params p) \<noteq> [])
              (sort_by_path ps))))
   \<and> (\<forall>p. filter (\<lambda>p. def_path p = DEFAULT_PARAMS_FILE) ps = [p] \<longrightarrow>
         concat (map (\<lambda>p. sort (params_keys (params p)))
           (rev (filter (\<lambda>p. def_path p = DEFAULT_PARAMS_FILE) (sort_by_path ps)))) =
         sort (params_keys (params p)))
   \<and> sorted (map def_path
         (filter (\<lambda>p. def_path p \<noteq> DEFAULT_PARAMS_FILE \<and> params_keys (params p) \<noteq> [])
            (sort_by_path ps)))
   \<and> distinct (map fst (serialize_params_values ps))
   \<and> set (map fst (serialize_params_values ps)) =
        def_path ` {p \<in> set ps. \<exists>d. params p = Params_dict d}
   \<and> (DEFAULT_PARAMS_FILE \<in> set (map fst (serialize_params_values ps)) \<longrightarrow>
        (\<exists>t. map fst (serialize_params_values ps) = DEFAULT_PARAMS_FILE # t))
   \<and> sorted (filter (\<lambda>k. k \<noteq> DEFAULT_PARAMS_FILE) (map fst (serialize_params_values ps)))
   \<and> (\<forall>fv \<in> set (serialize_params_values ps).
        \<exists>items. snd fv = PDict items \<and> sorted (map fst items))"
proof -
  have a: "list_all (\<lambda>p. params p \<noteq> Params_other) ps \<longrightarrow>
      serialize_params_keys ps = Inr
        (map PStr (concat (map (\<lambda>p. sort (params_keys (params p)))
           (rev (filter (\<lambda>p. def_path p = DEFAULT_PARAMS_FILE) (sort_by_path ps))))) @
         map (\<lambda>p. PDict [(def_path p, PList (map PStr (sort (params_keys (params p)))))])
           (filter (\<lambda>p. def_path p \<noteq> DEFAULT_PARAMS_FILE \<and> params_keys (params p) \<noteq> [])
              (sort_by_path ps)))"
    using serialize_params_keys_value by blast
  have b: "\<forall>p. filter (\<lambda>p. def_path p = DEFAULT_PARAMS_FILE) ps = [p] \<longrightarrow>
         concat (map (\<lambda>p. sort (params_keys (params p)))
           (rev (filter (\<lambda>p. def_path p = DEFAULT_PARAMS_FILE) (sort_by_path ps)))) =
         sort (params_keys (params p))"
  proof (intro allI impI)
    fix p assume "filter (\<lambda>p. def_path p = DEFAULT_PARAMS_FILE) ps = [p]"
    then have "filter (\<lambda>p. def_path p = DEFAULT_PARAMS_FILE) (sort_by_path ps) = [p]"
      by (rule filter_sort_by_path_single)
    then show "concat (map (\<lambda>p. sort (params_keys (params p)))
           (rev (filter (\<lambda>p. def_path p = DEFAULT_PARAMS_FILE) (sort_by_path ps)))) =
         sort (params_keys (params p))"
      by simp
  qed
  have c: "sorted (map def_path
         (filter (\<lambda>p. def_path p \<noteq> DEFAULT_PARAMS_FILE \<and> params_keys (params p) \<noteq> [])
            (sort_by_path ps)))"
    by (rule sorted_filter) (simp add: sort_by_path_def)
  have ok: "kv_ok (serialize_params_values ps)" by (rule serialize_params_values_ok)
  have ks: "set (map fst (serialize_params_values ps)) =
        def_path ` {p \<in> set ps. \<exists>d. params p = Params_dict d}"
    unfolding serialize_params_values_def values_loop_keys
    by (simp add: sort_by_path_def)
  from ok have d1: "distinct (map fst (serialize_params_values ps))"
    and d2: "sorted (filter (\<lambda>k. k \<noteq> DEFAULT_PARAMS_FILE) (map fst (serialize_params_values ps)))"
    and d3: "DEFAULT_PARAMS_FILE \<in> set (map fst (serialize_params_values ps)) \<longrightarrow>
        (\<exists>t. map fst (serialize_params_values ps) = DEFAULT_PARAMS_FILE # t)"
    and d4: "\<forall>fv \<in> set (serialize_params_values ps).
        \<exists>items. snd fv = PDict items \<and> sorted (map fst items)"
    unfolding kv_ok_def by blast+
  show ?thesis
    apply (intro conjI)
           apply (rule a)
          apply (rule b)
         apply (rule c)
        apply (rule d1)
       apply (rule ks)
      apply (rule d3)
     apply (rule d2)
    apply (rule d4)
    done
qed


theorem params_default_file_first_witness:
  "serialize_params_keys [ex_params_list, ex_params_default, ex_params_other] =
     Inr [PStr ''epochs'', PStr ''lr'',
          PDict [(''aa.yaml'', PList [PStr ''b'', PStr ''z''])],
          PDict [(''zz.yaml'', PList [PStr ''depth'', PStr ''seed''])]]
   \<and> serialize_params_values [ex_params_list, ex_params_default, ex_params_other] =
     [(''params.yaml'', PDict [(''epochs'', PInt 2), (''lr'', PInt 1)]),
      (''aa.yaml'', PDict [(''b'', PInt 2), (''z'', PInt 1)])]"
proof -
  have h: "list_all (\<lambda>p. params p \<noteq> Params_other) [ex_params_list, ex_params_default, ex_params_other]"
    by (simp add: ex_defs ex_params_list_def)
  from params_default_file_first[of "[ex_params_list, ex_params_default, ex_params_other]"] h
  have "serialize_params_keys [ex_params_list, ex_params_default, ex_params_other] = Inr
        (map PStr (concat (map (\<lambda>p. sort (params_keys (params p)))
           (rev (filter (\<lambda>p. def_path p = DEFAULT_PARAMS_FILE)
              (sort_by_path [ex_params_list, ex_params_default, ex_params_other]))))) @
         map (\<lambda>p. PDict [(def_path p, PList (map PStr (sort (params_keys (params p)))))])
           (filter (\<lambda>p. def_path p \<noteq> DEFAULT_PARAMS_FILE \<and> params_keys (params p) \<noteq> [])
              (sort_by_path [ex_params_list, ex_params_default, ex_params_other])))"
    by blast
  then have k: "serialize_params_keys [ex_params_list, ex_params_default, ex_params_other] =
     Inr [PStr ''epochs'', PStr ''lr'',
          PDict [(''aa.yaml'', PList [PStr ''b'', PStr ''z''])],
          PDict [(''zz.yaml'', PList [PStr ''depth'', PStr ''seed''])]]"
    by (simp add: ex_defs ex_params_list_def sort_by_path_def DEFAULT_PARAMS_FILE_def)
  have v: "serialize_params_values [ex_params_list, ex_params_default, ex_params_other] =
     [(''params.yaml'', PDict [(''epochs'', PInt 2), (''lr'', PInt 1)]),
      (''aa.yaml'', PDict [(''b'', PInt 2), (''z'', PInt 1)])]"
    by (simp add: ex_defs ex_params_list_def sort_by_path_def DEFAULT_PARAMS_FILE_def
        serialize_params_values_def dumpd_def OrderedDict_def move_to_end_first_def dict_get_def)
  from k v show ?thesis by simp
qed

section \<open>The pipeline file\<close>

lemma get_flags_plot_items:
  "get_flags out = OrderedDict
     ((if \<not> use_cache out then [(''cache'', PBool False)] else []) @
      (if persist out then [(''persist'', PBool True)] else []) @ plot_items out)"
  by (cases "plot out") (simp_all add: get_flags_def plot_items_def PARAM_defs)

lemma get_flags_Nil_iff:
  "get_flags out = [] \<longleftrightarrow> use_cache out \<and> \<not> persist out \<and> plot_items out = []"
  by (simp add: get_flags_plot_items OrderedDict_Nil_iff)

lemma serialize_out_bare_iff:
  "serialize_out out = PStr (def_path out) \<longleftrightarrow>
     use_cache out \<and> \<not> persist out \<and> plot_items out = []"
  by (simp add: serialize_out_def Let_def get_flags_Nil_iff)

lemma get_flags_entries:
  assumes "fl \<in> set (get_flags out)"
  shows "fl = (''cache'', PBool False) \<and> \<not> use_cache out
       \<or> fl = (''persist'', PBool True) \<and> persist out
       \<or> fl \<in> set (plot_items out)"
  using assms set_OrderedDict[of "(if \<not> use_cache out then [(''cache'', PBool False)] else []) @
      (if persist out then [(''persist'', PBool True)] else []) @ plot_items out"]
  unfolding get_flags_plot_items by (auto split: if_splits)

lemma key_in_filter_truthy:
  assumes "distinct (map fst res)"
  shows "k \<in> set (map fst (filter (\<lambda>kv. truthy (snd kv)) res)) \<longleftrightarrow>
         (\<exists>v. map_of res k = Some v \<and> truthy v)"
  using assms by (induction res) (auto simp: rev_image_eqI)

lemma serialize_outs_value:
  "serialize_outs outputs =
     (map serialize_out
        (filter (\<lambda>out. \<not> truthy (plot out) \<and> \<not> truthy (metric out)) (sort_by_path outputs)),
      map serialize_out
        (filter (\<lambda>out. \<not> truthy (plot out) \<and> truthy (metric out)) (sort_by_path outputs)),
      map serialize_out
        (filter (\<lambda>out. truthy (plot out)) (sort_by_path outputs)))"
  by (simp add: serialize_outs_def serialize_outs_loop_filter)

lemma filter_sort_by_path_Nil_iff:
  "filter P (sort_by_path xs) = [] \<longleftrightarrow> (\<forall>x \<in> set xs. \<not> P x)"
  by (simp add: sort_by_path_def filter_empty_conv)

lemma serialize_params_keys_cases:
  "serialize_params_keys ps = Inl AssertionError \<and> \<not> list_all (\<lambda>p. params p \<noteq> Params_other) ps
   \<or> (\<exists>ks. serialize_params_keys ps = Inr ks \<and> list_all (\<lambda>p. params p \<noteq> Params_other) ps
        \<and> (ks = [] \<longleftrightarrow> (\<forall>p \<in> set ps. params_keys (params p) = [])))"
proof (cases "list_all (\<lambda>p. params p \<noteq> Params_other) ps")
  case True
  have "(\<forall>p \<in> set ps. params_keys (params p) = []) \<longleftrightarrow>
        (\<forall>p \<in> set (sort_by_path ps). params_keys (params p) = [])"
    by (simp add: sort_by_path_def)
  then show ?thesis
    using True serialize_params_keys_value[OF True]
    by (auto simp: filter_empty_conv sort_key_Nil_iff)
next
  case False
  then have "\<not> list_all (\<lambda>p. params p \<noteq> Params_other) (sort_by_path ps)"
    by (simp add: sort_by_path_def list_all_sort_key)
  from keys_loop_fail[OF this] False show ?thesis by (simp add: serialize_params_keys_def)
qed

lemma ex_stage_pipeline_file:
  "to_pipeline_file (\<lambda>w p. PNone) ex_stage = Inr [(Some ''train'',
     [(''cmd'', PStr ''echo''),
      (''deps'', PList [PStr ''b'', PStr ''c'']),
      (''params'', PList [PStr ''epochs'', PStr ''lr'',
                          PDict [(''aa.yaml'', PList [PStr ''b'', PStr ''z''])]]),
      (''outs'', PList [PStr ''b'']),
      (''plots'', PList [PDict [(''a'', PDict [(''cache'', PBool False),
                                              (''persist'', PBool True),
                                              (''x'', PStr ''t'')])]]),
      (''always_changed'', PBool True)])]"
  by (simp add: ex_defs to_pipeline_file_def py_opt_str_def OrderedDict_def Let_def
      PARAM_defs split_params_deps_def sort_by_path_def serialize_params_keys_def dumpd_def
      DEFAULT_PARAMS_FILE_def serialize_outs_def serialize_out_def get_flags_def)

text \<open>
  C5: in the record \<^verbatim>\<open>to_pipeline_file\<close> writes for a stage, no key has an empty or default
  (falsy) value: \<^verbatim>\<open>cmd\<close> is there exactly when the command is a non-empty string, \<^verbatim>\<open>wdir\<close> when
  the resolved working directory is not the default, \<^verbatim>\<open>deps\<close>, \<^verbatim>\<open>params\<close>, \<^verbatim>\<open>outs\<close>, \<^verbatim>\<open>metrics\<close> and
  \<^verbatim>\<open>plots\<close> when their lists are not empty, \<^verbatim>\<open>frozen\<close> and \<^verbatim>\<open>always_changed\<close> when they are true.
  An output is written as its bare path exactly when it is cached, not persistent and has no
  plot sub-properties; the flags of an output hold \<^verbatim>\<open>cache\<close> only as \<^verbatim>\<open>cache: false\<close> (for an
  output that is not cached), \<^verbatim>\<open>persist\<close> only as \<^verbatim>\<open>persist: true\<close> (for a persistent one), and
  otherwise the plot sub-properties as they are.
\<close>

theorem pipeline_file_omits_defaults:
  assumes "to_pipeline_file rw st = Inr m"
  shows "\<exists>r. m = [(name st, r)]
     \<and> distinct (map fst r)
     \<and> (\<forall>kv \<in> set r. truthy (snd kv))
     \<and> (''cmd'' \<in> set (map fst r) \<longleftrightarrow> (\<exists>c. cmd st = Some c \<and> c \<noteq> []))
     \<and> (''wdir'' \<in> set (map fst r) \<longleftrightarrow> truthy (rw (wdir st) (path st)))
     \<and> (''deps'' \<in> set (map fst r) \<longleftrightarrow> snd (split_params_deps st) \<noteq> [])
     \<and> (''params'' \<in> set (map fst r) \<longleftrightarrow>
          (\<exists>p \<in> set (fst (split_params_deps st)). params_keys (params p) \<noteq> []))
     \<and> (''outs'' \<in> set (map fst r) \<longleftrightarrow>
          (\<exists>out \<in> set (outs st). \<not> truthy (plot out) \<and> \<not> truthy (metric out)))
     \<and> (''metrics'' \<in> set (map fst r) \<longleftrightarrow>
          (\<exists>out \<in> set (outs st). \<not> truthy (plot out) \<and> truthy (metric out)))
     \<and> (''plots'' \<in> set (map fst r) \<longleftrightarrow> (\<exists>out \<in> set (outs st). truthy (plot out)))
     \<and> (''frozen'' \<in> set (map fst r) \<longleftrightarrow> frozen st)
     \<and> (''always_changed'' \<in> set (map fst r) \<longleftrightarrow> always_changed st)
     \<and> (\<forall>out :: base_output.
          serialize_out out = PStr (def_path out) \<longleftrightarrow>
            use_cache out \<and> \<not> persist out \<and> plot_items out = [])
     \<and> (\<forall>out :: base_output. \<forall>fl \<in> set (get_flags out).
          fl = (''cache'', PBool False) \<and> \<not> use_cache out
          \<or> fl = (''persist'', PBool True) \<and> persist out
          \<or> fl \<in> set (plot_items out))"
proof -
  let ?ps = "fst (split_params_deps st)"
  let ?ds = "snd (split_params_deps st)"
  let ?A = "\<lambda>out :: base_output. \<not> truthy (plot out) \<and> \<not> truthy (metric out)"
  let ?B = "\<lambda>out :: base_output. \<not> truthy (plot out) \<and> truthy (metric out)"
  let ?C = "\<lambda>out :: base_output. truthy (plot out)"
  from assms have "serialize_params_keys ?ps \<noteq> Inl AssertionError"
    by (auto simp: to_pipeline_file_def Let_def split_beta)
  with serialize_params_keys_cases[of ?ps] obtain ks where
    ks: "serialize_params_keys ?ps = Inr ks" and
    ks_Nil: "ks = [] \<longleftrightarrow> (\<forall>p \<in> set ?ps. params_keys (params p) = [])"
    by blast
  define res where "res =
     [(''cmd'', py_opt_str (cmd st)),
      (''wdir'', rw (wdir st) (path st)),
      (''deps'', PList (map PStr (sort (map def_path ?ds)))),
      (''params'', PList ks),
      (''outs'', PList (map serialize_out (filter ?A (sort_by_path (outs st))))),
      (''metrics'', PList (map serialize_out (filter ?B (sort_by_path (outs st))))),
      (''plots'', PList (map serialize_out (filter ?C (sort_by_path (outs st))))),
      (''frozen'', PBool (frozen st)),
      (''always_changed'', PBool (always_changed st))]"
  define r where "r = filter (\<lambda>kv. truthy (snd kv)) res"
  have dres: "distinct (map fst res)" by (simp add: res_def)
  have dr: "distinct (map fst r)" unfolding r_def by (rule distinct_map_filter[OF dres])
  have "to_pipeline_file rw st = Inr [(name st, OrderedDict r)]"
    by (simp only: to_pipeline_file_def Let_def split_beta ks serialize_outs_value
        PARAM_defs res_def r_def sum.case fst_conv snd_conv prod.case)
  with assms have "m = [(name st, OrderedDict r)]" by simp
  then have m: "m = [(name st, r)]" by (simp only: OrderedDict_distinct[OF dr])
  have tr: "\<forall>kv \<in> set r. truthy (snd kv)" by (simp add: r_def)
  have mem: "\<And>k. k \<in> set (map fst r) \<longleftrightarrow> (\<exists>v. map_of res k = Some v \<and> truthy v)"
    unfolding r_def by (rule key_in_filter_truthy[OF dres])
  have k1: "''cmd'' \<in> set (map fst r) \<longleftrightarrow> (\<exists>c. cmd st = Some c \<and> c \<noteq> [])"
    unfolding mem by (cases "cmd st") (simp_all add: res_def py_opt_str_def)
  have k2: "''wdir'' \<in> set (map fst r) \<longleftrightarrow> truthy (rw (wdir st) (path st))"
    unfolding mem by (simp add: res_def)
  have k3: "''deps'' \<in> set (map fst r) \<longleftrightarrow> ?ds \<noteq> []"
    unfolding mem by (simp add: res_def sort_key_Nil_iff)
  have k4: "''params'' \<in> set (map fst r) \<longleftrightarrow> (\<exists>p \<in> set ?ps. params_keys (params p) \<noteq> [])"
    unfolding mem using ks_Nil by (simp add: res_def)
  have k5: "''outs'' \<in> set (map fst r) \<longleftrightarrow> (\<exists>out \<in> set (outs st). ?A out)"
    unfolding mem by (simp add: res_def filter_sort_by_path_Nil_iff)
  have k6: "''metrics'' \<in> set (map fst r) \<longleftrightarrow> (\<exists>out \<in> set (outs st). ?B out)"
    unfolding mem by (simp add: res_def filter_sort_by_path_Nil_iff)
  have k7: "''plots'' \<in> set (map fst r) \<longleftrightarrow> (\<exists>out \<in> set (outs st). ?C out)"
    unfolding mem by (simp add: res_def filter_sort_by_path_Nil_iff)
  have k8: "''frozen'' \<in> set (map fst r) \<longleftrightarrow> frozen st"
    unfolding mem by (simp add: res_def)
  have k9: "''always_changed'' \<in> set (map fst r) \<longleftrightarrow> always_changed st"
    unfolding mem by (simp add: res_def)
  have o1: "\<forall>out :: base_output.
          serialize_out out = PStr (def_path out) \<longleftrightarrow>
            use_cache out \<and> \<not> persist out \<and> plot_items out = []"
    by (simp add: serialize_out_bare_iff)
  have o2: "\<forall>out :: base_output. \<forall>fl \<in> set (get_flags out).
          fl = (''cache'', PBool False) \<and> \<not> use_cache out
          \<or> fl = (''persist'', PBool True) \<and> persist out
          \<or> fl \<in> set (plot_items out)"
    using get_flags_entries by blast
  show ?thesis
    apply (rule exI[of _ r])
    apply (intro conjI)
                 apply (rule m)
                apply (rule dr)
               apply (rule tr)
              apply (rule k1)
             apply (rule k2)
            apply (rule k3)
           apply (rule k4)
          apply (rule k5)
         apply (rule k6)
        apply (rule k7)
       apply (rule k8)
      apply (rule k9)
     apply (rule o1)
    apply (rule o2)
    done
qed

theorem pipeline_file_omits_defaults_witness:
  "to_pipeline_file (\<lambda>w p. PNone) ex_stage = Inr [(Some ''train'',
     [(''cmd'', PStr ''echo''),
      (''deps'', PList [PStr ''b'', PStr ''c'']),
      (''params'', PList [PStr ''epochs'', PStr ''lr'',
                          PDict [(''aa.yaml'', PList [PStr ''b'', PStr ''z''])]]),
      (''outs'', PList [PStr ''b'']),
      (''plots'', PList [PDict [(''a'', PDict [(''cache'', PBool False),
                                              (''persist'', PBool True),
                                              (''x'', PStr ''t'')])]]),
      (''always_changed'', PBool True)])]
   \<and> (\<exists>r. to_pipeline_file (\<lambda>w p. PNone) ex_stage = Inr [(Some ''train'', r)]
         \<and> ''frozen'' \<notin> set (map fst r) \<and> ''wdir'' \<notin> set (map fst r)
         \<and> ''metrics'' \<notin> set (map fst r) \<and> ''always_changed'' \<in> set (map fst r))"
proof -
  have "\<exists>r. [(Some ''train'',
     [(''cmd'', PStr ''echo''),
      (''deps'', PList [PStr ''b'', PStr ''c'']),
      (''params'', PList [PStr ''epochs'', PStr ''lr'',
                          PDict [(''aa.yaml'', PList [PStr ''b'', PStr ''z''])]]),
      (''outs'', PList [PStr ''b'']),
      (''plots'', PList [PDict [(''a'', PDict [(''cache'', PBool False),
                                              (''persist'', PBool True),
                                              (''x'', PStr ''t'')])]]),
      (''always_changed'', PBool True)])] = [(name ex_stage, r)]
     \<and> distinct (map fst r)"
    using pipeline_file_omits_defaults[OF ex_stage_pipeline_file] by (elim exE conjE) (intro exI conjI)
  then show ?thesis
    using ex_stage_pipeline_file by simp
qed

section \<open>Memoization of the hasher\<close>



lemma hash_hit:
  "memo h p (node_stat nd) = Some cid \<Longrightarrow> hash_node dg ser p nd h = (cid, h)"
  by (cases nd) simp_all






lemmas repo_defs = inode_of_def stat_def has_def new_file_def store_def set_writable_def
  protect_def unprotect_def is_writable_def cache_bytes_def materialize_def linked_as_def
  overlaps_def dvcfile_of_def own_stage_def other_outputs_def check_outputs_def
  new_tracking_def refresh_def add_def memo_def upsert_def ensure_protected_def
  ensure_stored_def ensure_linked_def record_output_def

section \<open>Overlapping outputs\<close>

text \<open>
  C2: when another Stage declares an Output that the added path overlaps (the same path, an
  ancestor directory of it or a descendant of it), \<^verbatim>\<open>add\<close> fails with a structural error,
  \<^verbatim>\<open>OutputDuplicationError\<close> when the path itself is an Output of another Stage and
  \<^verbatim>\<open>OverlappingOutputPathsError\<close> otherwise, and the repository is left exactly as it was:
  nothing is hashed, stored, linked or recorded.
\<close>

theorem add_overlapping_output_fails:
  assumes "t \<in> set (stages r)" and "\<not> own_stage p t"
    and "q \<in> set (map fst (recorded t))" and "overlaps p q"
  shows "\<exists>e. add dg types supported p r = (Some (StructuralError e), r)
     \<and> (e = OutputDuplicationError \<or> e = OverlappingOutputPathsError)
     \<and> (e = OutputDuplicationError \<longleftrightarrow> p \<in> set (other_outputs p (stages r)))"
proof -
  from assms(1-3) have q: "q \<in> set (other_outputs p (stages r))"
    by (auto simp: other_outputs_def)
  with assms(4) have ex: "list_ex (overlaps p) (other_outputs p (stages r))"
    by (auto simp: list_ex_iff)
  show ?thesis
  proof (cases "p \<in> set (other_outputs p (stages r))")
    case True
    then show ?thesis by (simp add: add_def check_outputs_def)
  next
    case False
    with ex show ?thesis by (simp add: add_def check_outputs_def)
  qed
qed

theorem add_overlapping_output_fails_witness:
  "add ex_digest [Hardlink] (\<lambda>t. True) [''dir'', ''file2''] ex_tracked =
     (Some (StructuralError OverlappingOutputPathsError), ex_tracked)
   \<and> add ex_digest [Hardlink] (\<lambda>t. True) [''bar''] ex_tracked =
     (Some (StructuralError OutputDuplicationError), ex_tracked)"
proof -
  let ?t1 = "\<lparr>dvcfile = [''dir.dvc''], stage_name = None, recorded = [([''dir''], Some ''d0.dir'')]\<rparr>"
  let ?t2 = "\<lparr>dvcfile = [''dvc.yaml''], stage_name = Some ''copy-foo-bar'',
        recorded = [([''bar''], Some ''#foo'')]\<rparr>"
  have a1: "?t1 \<in> set (stages ex_tracked)" by (simp add: ex_tracked_def)
  have a2: "\<not> own_stage [''dir'', ''file2''] ?t1" by (simp add: own_stage_def dvcfile_of_def)
  have a3: "[''dir''] \<in> set (map fst (recorded ?t1))" by simp
  have a4: "overlaps [''dir'', ''file2''] [''dir'']" by (simp add: overlaps_def)
  have n1: "[''dir'', ''file2''] \<notin> set (other_outputs [''dir'', ''file2''] (stages ex_tracked))"
    by (simp add: ex_tracked_def other_outputs_def own_stage_def dvcfile_of_def)
  have b1: "?t2 \<in> set (stages ex_tracked)" by (simp add: ex_tracked_def)
  have b2: "\<not> own_stage [''bar''] ?t2" by (simp add: own_stage_def dvcfile_of_def)
  have b3: "[''bar''] \<in> set (map fst (recorded ?t2))" by simp
  have b4: "overlaps [''bar''] [''bar'']" by (simp add: overlaps_def)
  have n2: "[''bar''] \<in> set (other_outputs [''bar''] (stages ex_tracked))"
    by (simp add: ex_tracked_def other_outputs_def own_stage_def dvcfile_of_def)
  from add_overlapping_output_fails[OF a1 a2 a3 a4, of ex_digest "[Hardlink]" "\<lambda>t. True"] n1
  have r1: "add ex_digest [Hardlink] (\<lambda>t. True) [''dir'', ''file2''] ex_tracked =
     (Some (StructuralError OverlappingOutputPathsError), ex_tracked)" by auto
  from add_overlapping_output_fails[OF b1 b2 b3 b4, of ex_digest "[Hardlink]" "\<lambda>t. True"] n2
  have r2: "add ex_digest [Hardlink] (\<lambda>t. True) [''bar''] ex_tracked =
     (Some (StructuralError OutputDuplicationError), ex_tracked)" by auto
  from r1 r2 show ?thesis by simp
qed

section \<open>Steps of \<^verbatim>\<open>add\<close>\<close>

lemma cache_bytes_SomeD:
  "cache_bytes r cid = Some bs \<Longrightarrow>
   \<exists>ci ino. cache r cid = Some ci \<and> inodes r ci = Some ino \<and> ibytes ino = bs"
  by (auto simp: cache_bytes_def split: option.splits)

lemma cache_bytes_cong:
  "cache r' = cache r \<Longrightarrow> inodes r' = inodes r \<Longrightarrow> cache_bytes r' cid = cache_bytes r cid"
  by (cases "cache r cid") (simp_all add: cache_bytes_def)

lemma stat_work: "stat r p = Some nd \<Longrightarrow> work r p \<noteq> None"
  by (auto simp: stat_def inode_of_def split: option.splits)

lemma step_store:
  assumes "stat r p = Some (File fp bs)"
    and "cache r cid \<noteq> None \<longrightarrow> cache_bytes r cid = Some bs"
  shows "cache_bytes (ensure_stored p cid r) cid = Some bs"
    and "work (ensure_stored p cid r) = work r"
    and "stages (ensure_stored p cid r) = stages r"
    and "state (ensure_stored p cid r) = state r"
    and "cache r cid \<noteq> None \<longrightarrow> cache (ensure_stored p cid r) = cache r"
  using assms by (simp_all add: ensure_stored_def has_def store_def new_file_def cache_bytes_def)

lemma step_link:
  assumes "cache_bytes r cid = Some bs" and "bs \<noteq> []" and "work r p \<noteq> None"
  shows "\<exists>ci. cache r cid = Some ci \<and>
           work (ensure_linked Hardlink cid p r) p =
             Some (Regular ci)"
    and "cache (ensure_linked Hardlink cid p r) = cache r"
    and "cache_bytes (ensure_linked Hardlink cid p r) cid
           = Some bs"
    and "stages (ensure_linked Hardlink cid p r) = stages r"
    and "state (ensure_linked Hardlink cid p r) = state r"
proof -
  from cache_bytes_SomeD[OF assms(1)] obtain ci ino where
    ci: "cache r cid = Some ci" "inodes r ci = Some ino" "ibytes ino = bs" by blast
  show "\<exists>ci. cache r cid = Some ci \<and>
           work (ensure_linked Hardlink cid p r) p =
             Some (Regular ci)"
    using assms ci
    by (auto simp: ensure_linked_def linked_as_def materialize_def protect_def set_writable_def is_writable_def
        Let_def split: option.splits wentry.splits)
  show "cache (ensure_linked Hardlink cid p r) = cache r"
    using assms ci
    by (simp add: ensure_linked_def materialize_def protect_def set_writable_def is_writable_def Let_def)
  show "cache_bytes (ensure_linked Hardlink cid p r) cid
           = Some bs"
    using assms ci
    by (simp add: ensure_linked_def materialize_def protect_def set_writable_def is_writable_def cache_bytes_def
        Let_def)
  show "stages (ensure_linked Hardlink cid p r) = stages r"
    using assms ci
    by (simp add: ensure_linked_def materialize_def protect_def set_writable_def is_writable_def Let_def)
  show "state (ensure_linked Hardlink cid p r) = state r"
    using assms ci
    by (simp add: ensure_linked_def materialize_def protect_def set_writable_def is_writable_def Let_def)
qed

lemma step_protect:
  assumes "cache r cid = Some ci" and "cache_bytes r cid = Some bs"
  shows "\<not> is_writable (ensure_protected cid r) ci"
    and "cache (ensure_protected cid r) = cache r"
    and "work (ensure_protected cid r) = work r"
    and "cache_bytes (ensure_protected cid r) cid = Some bs"
    and "stages (ensure_protected cid r) = stages r"
    and "state (ensure_protected cid r) = state r"
  using assms
  by (auto simp: ensure_protected_def protect_def set_writable_def is_writable_def cache_bytes_def
      split: option.splits)

lemma step_refresh:
  assumes "work r p = Some (Regular ci)" and "cache r cid = Some ci"
    and "cache_bytes r cid = Some bs"
  shows "\<exists>m. stat r p = Some (File (length bs, m, ci) bs) \<and>
           table (state (refresh p cid r)) p = Some ((length bs, m, ci), cid)"
    and "inodes (refresh p cid r) = inodes r"
    and "work (refresh p cid r) = work r"
    and "cache (refresh p cid r) = cache r"
    and "stages (refresh p cid r) = stages r"
  using assms
  by (auto simp: refresh_def stat_def inode_of_def cache_bytes_def upsert_def
      split: option.splits)

lemma is_writable_cong: "inodes r' = inodes r \<Longrightarrow> is_writable r' i = is_writable r i"
  by (simp add: is_writable_def)

lemma stat_cong:
  "inodes r' = inodes r \<Longrightarrow> work r' = work r \<Longrightarrow> cache r' = cache r \<Longrightarrow>
   stat r' p = stat r p"
  by (simp add: stat_def inode_of_def cong: option.case_cong wentry.case_cong)

lemma hardlink_add_post:
  assumes t: "find supported types = Some Hardlink"
    and c: "check_outputs p (stages r) = None"
    and s: "stat r p = Some (File fp bs)"
    and ne: "bs \<noteq> []"
    and h: "hash_node dg (\<lambda>entries. []) p (File fp bs) (state r) = (cid, hs)"
    and inv: "cache r cid \<noteq> None \<longrightarrow> cache_bytes r cid = Some bs"
  shows "\<exists>r' ci m. add dg types supported p r = (None, r')
     \<and> work r' p = Some (Regular ci) \<and> cache r' cid = Some ci
     \<and> \<not> is_writable r' ci \<and> cache_bytes r' cid = Some bs
     \<and> (cache r cid \<noteq> None \<longrightarrow> cache r' = cache r)
     \<and> stages r' = put_tracking (new_tracking p cid) (stages r)
     \<and> stat r' p = Some (File (length bs, m, ci) bs)
     \<and> table (state r') p = Some ((length bs, m, ci), cid)"
proof -
  define r1 where "r1 = r\<lparr>state := hs\<rparr>"
  have s1: "stat r1 p = Some (File fp bs)"
    using s stat_cong[of r1 r p] by (simp add: r1_def)
  have inv1: "cache r1 cid \<noteq> None \<longrightarrow> cache_bytes r1 cid = Some bs"
    using inv cache_bytes_cong[of r1 r cid] by (simp add: r1_def)
  define r2 where "r2 = ensure_stored p cid r1"
  note f2 = step_store[OF s1 inv1, folded r2_def]
  have w2: "work r2 p \<noteq> None" using stat_work[OF s1] f2(2) by simp
  define r3 where "r3 = ensure_linked Hardlink cid p r2"
  note f3 = step_link[OF f2(1) ne w2, folded r3_def]
  from f3(1) obtain ci where ci: "cache r2 cid = Some ci" "work r3 p = Some (Regular ci)"
    by blast
  have c3: "cache r3 cid = Some ci" using ci(1) f3(2) by simp
  define r4 where "r4 = ensure_protected cid r3"
  note f4 = step_protect[OF c3 f3(3), folded r4_def]
  have w4: "work r4 p = Some (Regular ci)" using ci(2) f4(3) by simp
  have c4: "cache r4 cid = Some ci" using c3 f4(2) by simp
  define r5 where "r5 = refresh p cid r4"
  note f5 = step_refresh[OF w4 c4 f4(4), folded r5_def]
  from f5(1) obtain m where m: "stat r4 p = Some (File (length bs, m, ci) bs)"
    "table (state r5) p = Some ((length bs, m, ci), cid)" by blast
  define r6 where "r6 = record_output p cid r5"
  have res: "add dg types supported p r = (None, r6)"
    unfolding r6_def r5_def r4_def r3_def r2_def r1_def
    by (simp only: add_def c s h t Let_def option.case prod.case)
  have i6: "inodes r6 = inodes r4" by (simp add: r6_def record_output_def f5(2))
  have wk6: "work r6 = work r4" by (simp add: r6_def record_output_def f5(3))
  have ch6: "cache r6 = cache r4" by (simp add: r6_def record_output_def f5(4))
  have p1: "work r6 p = Some (Regular ci)" using w4 wk6 by simp
  have p2: "cache r6 cid = Some ci" using c4 ch6 by simp
  have p3: "\<not> is_writable r6 ci" using f4(1) is_writable_cong[OF i6] by simp
  have p4: "cache_bytes r6 cid = Some bs" using f4(4) cache_bytes_cong[OF ch6 i6] by simp
  have p5: "cache r cid \<noteq> None \<longrightarrow> cache r6 = cache r"
    using f2(5) f3(2) f4(2) ch6 by (simp add: r1_def)
  have p6: "stages r6 = put_tracking (new_tracking p cid) (stages r)"
    using f2(3) f3(4) f4(5) f5(5) by (simp add: r6_def record_output_def r1_def)
  have p7: "stat r6 p = Some (File (length bs, m, ci) bs)"
    using m(1) stat_cong[OF i6 wk6 ch6] by simp
  have p8: "table (state r6) p = Some ((length bs, m, ci), cid)"
    using m(2) by (simp add: r6_def record_output_def)
  from res p1 p2 p3 p4 p5 p6 p7 p8 show ?thesis by blast
qed




lemma other_outputs_put_tracking:
  "other_outputs p (put_tracking (new_tracking p cid) ts) = other_outputs p ts"
proof (induction ts)
  case Nil
  then show ?case by (simp add: other_outputs_def own_stage_def new_tracking_def)
next
  case (Cons t' ts)
  then show ?case
    by (auto simp: other_outputs_def own_stage_def new_tracking_def)
qed

lemma check_outputs_put_tracking:
  "check_outputs p (put_tracking (new_tracking p cid) ts) = check_outputs p ts"
  by (simp add: check_outputs_def other_outputs_put_tracking)





lemma stat_unprotect: "stat (unprotect p r) q = stat r q"
  by (auto simp: unprotect_def stat_def inode_of_def set_writable_def
      split: option.splits wentry.splits)

lemma cache_bytes_unprotect: "cache_bytes (unprotect p r) cid = cache_bytes r cid"
  by (auto simp: unprotect_def cache_bytes_def inode_of_def set_writable_def
      split: option.splits wentry.splits)

lemma unprotect_fields:
  "cache (unprotect p r) = cache r" "work (unprotect p r) = work r"
  "stages (unprotect p r) = stages r" "state (unprotect p r) = state r"
  by (auto simp: unprotect_def set_writable_def split: option.splits)

lemma unprotect_writable:
  "work r p = Some (Regular ci) \<Longrightarrow> inodes r ci \<noteq> None \<Longrightarrow> is_writable (unprotect p r) ci"
  by (auto simp: unprotect_def set_writable_def is_writable_def inode_of_def)


section \<open>Adding a tracked file again\<close>





section \<open>The hardlink strategy\<close>

text \<open>
  C7 (as amended): with hardlink as the link strategy in force, \<^verbatim>\<open>add\<close> of a non-empty file that
  no other Stage's Output overlaps succeeds; afterwards the workspace file and the CacheEntry
  of its content are the same inode, and that inode is read-only. An explicit \<^verbatim>\<open>unprotect\<close> of
  the workspace file makes the inode writable, and \<^verbatim>\<open>add\<close> again restores the protection, the
  file still sharing the inode of the CacheEntry. (A cache entry already present for the
  ContentId is taken to hold the file's bytes, the addressing invariant of the cache.)
\<close>

theorem hardlink_add_shares_protected_inode:
  assumes t: "find supported types = Some Hardlink"
    and c: "check_outputs p (stages r) = None"
    and s: "stat r p = Some (File fp bs)"
    and ne: "bs \<noteq> []"
    and h: "hash_node dg (\<lambda>entries. []) p (File fp bs) (state r) = (cid, hs)"
    and inv: "cache r cid \<noteq> None \<longrightarrow> cache_bytes r cid = Some bs"
  shows "\<exists>r1 ci. add dg types supported p r = (None, r1)
     \<and> work r1 p = Some (Regular ci) \<and> cache r1 cid = Some ci
     \<and> cache_bytes r1 cid = Some bs \<and> \<not> is_writable r1 ci
     \<and> is_writable (unprotect p r1) ci
     \<and> (\<exists>r2. add dg types supported p (unprotect p r1) = (None, r2)
           \<and> work r2 p = Some (Regular ci) \<and> cache r2 cid = Some ci
           \<and> cache_bytes r2 cid = Some bs \<and> \<not> is_writable r2 ci)"
proof -
  from hardlink_add_post[OF t c s ne h inv] obtain r1 ci m where
    a1: "add dg types supported p r = (None, r1)"
    and w1: "work r1 p = Some (Regular ci)"
    and c1: "cache r1 cid = Some ci"
    and nw1: "\<not> is_writable r1 ci"
    and cb1: "cache_bytes r1 cid = Some bs"
    and st1: "stages r1 = put_tracking (new_tracking p cid) (stages r)"
    and s1: "stat r1 p = Some (File (length bs, m, ci) bs)"
    and tb1: "table (state r1) p = Some ((length bs, m, ci), cid)"
    by blast
  let ?u = "unprotect p r1"
  from cache_bytes_SomeD[OF cb1] c1 have ex: "inodes r1 ci \<noteq> None" by auto
  have wu: "is_writable ?u ci" by (rule unprotect_writable[OF w1 ex])
  have cu: "check_outputs p (stages ?u) = None"
    using c by (simp add: unprotect_fields st1 check_outputs_put_tracking)
  have su: "stat ?u p = Some (File (length bs, m, ci) bs)"
    using s1 by (simp add: stat_unprotect)
  have "memo (state ?u) p (node_stat (File (length bs, m, ci) bs)) = Some cid"
    using tb1 by (simp add: unprotect_fields memo_def)
  from hash_hit[OF this, of dg "\<lambda>entries. []"]
  have hu: "hash_node dg (\<lambda>entries. []) p (File (length bs, m, ci) bs) (state ?u) = (cid, state ?u)" .
  have invu: "cache ?u cid \<noteq> None \<longrightarrow> cache_bytes ?u cid = Some bs"
    using cb1 by (simp add: cache_bytes_unprotect)
  from hardlink_add_post[OF t cu su ne hu invu] obtain r2 ci2 where
    a2: "add dg types supported p ?u = (None, r2)"
    and w2: "work r2 p = Some (Regular ci2)"
    and c2: "cache r2 cid = Some ci2"
    and nw2: "\<not> is_writable r2 ci2"
    and cb2: "cache_bytes r2 cid = Some bs"
    and same: "cache ?u cid \<noteq> None \<longrightarrow> cache r2 = cache ?u"
    by blast
  from same c1 c2 have "ci2 = ci" by (simp add: unprotect_fields)
  with a2 w2 c2 nw2 cb2 have
    "\<exists>r2. add dg types supported p ?u = (None, r2)
           \<and> work r2 p = Some (Regular ci) \<and> cache r2 cid = Some ci
           \<and> cache_bytes r2 cid = Some bs \<and> \<not> is_writable r2 ci" by blast
  with a1 w1 c1 cb1 nw1 wu show ?thesis by blast
qed

theorem hardlink_add_shares_protected_inode_witness:
  "find (\<lambda>t. True) [Hardlink] = Some Hardlink
   \<and> check_outputs [''foo''] (stages ex_repo) = None
   \<and> stat ex_repo [''foo''] = Some (File (3, 1, 10) ''foo'')
   \<and> cache ex_repo ''#foo'' = None
   \<and> (\<exists>r1 ci. add ex_digest [Hardlink] (\<lambda>t. True) [''foo''] ex_repo = (None, r1)
     \<and> work r1 [''foo''] = Some (Regular ci) \<and> cache r1 ''#foo'' = Some ci
     \<and> cache_bytes r1 ''#foo'' = Some ''foo'' \<and> \<not> is_writable r1 ci
     \<and> is_writable (unprotect [''foo''] r1) ci
     \<and> (\<exists>r2. add ex_digest [Hardlink] (\<lambda>t. True) [''foo''] (unprotect [''foo''] r1) = (None, r2)
           \<and> work r2 [''foo''] = Some (Regular ci) \<and> cache r2 ''#foo'' = Some ci
           \<and> cache_bytes r2 ''#foo'' = Some ''foo'' \<and> \<not> is_writable r2 ci))"
proof -
  have h1: "find (\<lambda>t. True) [Hardlink] = Some Hardlink" by simp
  have h2: "check_outputs [''foo''] (stages ex_repo) = None"
    by (simp add: ex_repo_def check_outputs_def other_outputs_def)
  have h3: "stat ex_repo [''foo''] = Some (File (3, 1, 10) ''foo'')"
    by (simp add: ex_repo_def stat_def inode_of_def)
  have h4: "''foo'' \<noteq> []" by simp
  have h5: "hash_node ex_digest (\<lambda>entries. []) [''foo''] (File (3, 1, 10) ''foo'') (state ex_repo)
      = (''#foo'', snd (hash_node ex_digest (\<lambda>entries. []) [''foo''] (File (3, 1, 10) ''foo'')
            (state ex_repo)))"
    by (simp add: ex_repo_def ex_hasher_def memo_def ex_digest_def Let_def)
  have n: "cache ex_repo ''#foo'' = None" by (simp add: ex_repo_def)
  then have h6: "cache ex_repo ''#foo'' \<noteq> None \<longrightarrow> cache_bytes ex_repo ''#foo'' = Some ''foo''"
    by simp
  from hardlink_add_shares_protected_inode[OF h1 h2 h3 h4 h5 h6] h1 h2 h3 n
  show ?thesis by simp
qed

text \<open>
  The claim C7 as stated fails for an empty file (\<^verbatim>\<open>test_add_optimization_for_hardlink_on_empty_files\<close>,
  "hardlinks are not created for empty files"): after \<^verbatim>\<open>add\<close> with the hardlink strategy the
  workspace file has an inode of its own, not the inode of the CacheEntry, and is writable.
\<close>

theorem hardlink_empty_file_counterexample:
  "stat ex_repo [''empty''] = Some (File (0, 2, 11) [])
   \<and> fst (add ex_digest [Hardlink] (\<lambda>t. True) [''empty''] ex_repo) = None
   \<and> work ex_added_empty [''empty''] = Some (Regular 11)
   \<and> cache ex_added_empty ''#'' = Some 12
   \<and> stages ex_added_empty = [new_tracking [''empty''] ''#'']
   \<and> is_writable ex_added_empty 11"
  by (simp add: ex_added_empty_def ex_repo_def repo_defs ex_hasher_def ex_digest_def Let_def)

end
